theory Spec2Isabelle
  imports Complex_Main "HOL-Library.AList"
begin

section \<open>Resource objects\<close>

text \<open>
  A resource object is read by the cache through three paths only: \<^verbatim>\<open>apiVersion\<close>,
  \<^verbatim>\<open>kind\<close> and the nested \<^verbatim>\<open>metadata\<close> mapping with \<^verbatim>\<open>uid\<close> and
  \<^verbatim>\<open>resourceVersion\<close>. A JavaScript property that is \<^verbatim>\<open>undefined\<close> is \<open>None\<close>.
  Everything else the object carries is the opaque \<open>payload\<close>.
\<close>

record metadata =
  uid :: "string option"
  resourceVersion :: "string option"

record 'p kobject =
  apiVersion :: "string option"
  kind :: "string option"
  metadata :: "metadata option"
  payload :: 'p

text \<open>\<^verbatim>\<open>get(object, 'metadata.uid')\<close>: the default key path of Store.js. A missing
  \<^verbatim>\<open>metadata\<close> or a missing \<^verbatim>\<open>uid\<close> gives \<^verbatim>\<open>undefined\<close>, which a JavaScript
  Map accepts as a key.\<close>

definition uidKey :: "'p kobject \<Rightarrow> string option" where
  "uidKey object = (case metadata object of None \<Rightarrow> None | Some m \<Rightarrow> uid m)"


section \<open>Store.js\<close>

text \<open>
  The one-shot promise behind \<^verbatim>\<open>hasSynced\<close>: \<^verbatim>\<open>new Promise(resolve => ...)\<close> is
  \<open>Pending\<close>; calling the resolve function settles a pending promise and does nothing
  to a settled one.
\<close>

datatype 'a promise = Pending | Resolved 'a

fun resolve :: "'a \<Rightarrow> 'a promise \<Rightarrow> 'a promise" where
  "resolve v Pending = Resolved v"
| "resolve v (Resolved w) = Resolved w"

text \<open>
  The Store holds a JavaScript \<^verbatim>\<open>Map\<close>, which keeps insertion order: \<^verbatim>\<open>set\<close> on a
  present key overwrites the value in place and on a new key appends, \<^verbatim>\<open>delete\<close>
  removes the entry. That is an association list with distinct keys under
  \<^const>\<open>AList.update\<close> and \<^const>\<open>AList.delete\<close>. The key function stands for
  \<^verbatim>\<open>get(object, this[kKeyPath])\<close>; \<^const>\<open>uidKey\<close> is the default.
\<close>

record ('k, 'o) store =
  entries :: "('k \<times> 'o) list"
  hasSynced :: "bool promise"
  keyFunc :: "'o \<Rightarrow> 'k"

definition newStore :: "('o \<Rightarrow> 'k) \<Rightarrow> ('k, 'o) store" where
  "newStore kf = \<lparr>entries = [], hasSynced = Pending, keyFunc = kf\<rparr>"

text \<open>The store content: the key-to-object mapping the Map represents.\<close>

definition content :: "('k, 'o) store \<Rightarrow> 'k \<rightharpoonup> 'o" where
  "content s = map_of (entries s)"

definition listKeys :: "('k, 'o) store \<Rightarrow> 'k list" where
  "listKeys s = map fst (entries s)"

definition Store_list :: "('k, 'o) store \<Rightarrow> 'o list" where
  "Store_list s = map snd (entries s)"

definition clear :: "('k, 'o) store \<Rightarrow> ('k, 'o) store" where
  "clear s = s\<lparr>entries := []\<rparr>"

definition Store_delete :: "'o \<Rightarrow> ('k, 'o) store \<Rightarrow> ('k, 'o) store" where
  "Store_delete object s =
     (let key = keyFunc s object in s\<lparr>entries := AList.delete key (entries s)\<rparr>)"

definition getByKey :: "('k, 'o) store \<Rightarrow> 'k \<Rightarrow> 'o option" where
  "getByKey s key = map_of (entries s) key"

definition Store_get :: "('k, 'o) store \<Rightarrow> 'o \<Rightarrow> 'o option" where
  "Store_get s object = (let key = keyFunc s object in getByKey s key)"

definition hasByKey :: "('k, 'o) store \<Rightarrow> 'k \<Rightarrow> bool" where
  "hasByKey s key = (key \<in> fst ` set (entries s))"

definition has :: "('k, 'o) store \<Rightarrow> 'o \<Rightarrow> bool" where
  "has s object = (let key = keyFunc s object in hasByKey s key)"

definition Store_add :: "'o \<Rightarrow> ('k, 'o) store \<Rightarrow> ('k, 'o) store" where
  "Store_add object s =
     (let key = keyFunc s object in s\<lparr>entries := AList.update key object (entries s)\<rparr>)"

definition Store_update :: "'o \<Rightarrow> ('k, 'o) store \<Rightarrow> ('k, 'o) store" where
  "Store_update object s =
     (let key = keyFunc s object in s\<lparr>entries := AList.update key object (entries s)\<rparr>)"

text \<open>The loop of \<^verbatim>\<open>replace\<close>: one \<^verbatim>\<open>set\<close> per item, in order.\<close>

fun setAll :: "('o \<Rightarrow> 'k) \<Rightarrow> 'o list \<Rightarrow> ('k \<times> 'o) list \<Rightarrow> ('k \<times> 'o) list" where
  "setAll kf [] al = al"
| "setAll kf (object # items) al = setAll kf items (AList.update (kf object) object al)"

definition Store_replace :: "'o list \<Rightarrow> ('k, 'o) store \<Rightarrow> ('k, 'o) store" where
  "Store_replace items s =
     (let s1 = clear s;
          s2 = s1\<lparr>entries := setAll (keyFunc s1) items (entries s1)\<rparr>
      in s2\<lparr>hasSynced := resolve True (hasSynced s2)\<rparr>)"

text \<open>The calls a client can make on a Store, to speak about every later call.\<close>

datatype 'o storeCall = Add 'o | Update 'o | Delete 'o | Replace "'o list" | Clear

fun call :: "'o storeCall \<Rightarrow> ('k, 'o) store \<Rightarrow> ('k, 'o) store" where
  "call (Add object) s = Store_add object s"
| "call (Update object) s = Store_update object s"
| "call (Delete object) s = Store_delete object s"
| "call (Replace items) s = Store_replace items s"
| "call Clear s = clear s"

fun calls :: "'o storeCall list \<Rightarrow> ('k, 'o) store \<Rightarrow> ('k, 'o) store" where
  "calls [] s = s"
| "calls (c # cs) s = calls cs (call c s)"

text \<open>The mapping a sequence of items denotes: each key goes to the last item that
  derives it.\<close>

definition itemsMap :: "('o \<Rightarrow> 'k) \<Rightarrow> 'o list \<Rightarrow> 'k \<rightharpoonup> 'o" where
  "itemsMap kf items = map_of (rev (map (\<lambda>object. (kf object, object)) items))"


section \<open>JavaScript numbers\<close>

text \<open>
  A Number is a finite double, an infinity or \<^verbatim>\<open>NaN\<close>. A finite double is modelled by the
  real number it denotes (zero carries no sign here). An arithmetic operation returns
  the exact result rounded to the nearest double, a tie to the even significand, and an
  infinity when the rounded result is out of range: doubles have 53 significant bits
  and exponents from \<open>-1022\<close> (below, the spacing stays \<open>2^-1074\<close>) to \<open>1023\<close>.
\<close>

datatype jsnum = Num real | PosInf | NegInf | NaN

definition roundHalfEven :: "real \<Rightarrow> int" where
  "roundHalfEven y =
     (let f = \<lfloor>y\<rfloor>
      in if y - of_int f < 1 / 2 then f
         else if 1 / 2 < y - of_int f then f + 1
         else if even f then f else f + 1)"

text \<open>The spacing of the doubles around \<open>x \<noteq> 0\<close>.\<close>

definition ulp :: "real \<Rightarrow> real" where
  "ulp x = 2 powr (of_int (max \<lfloor>log 2 \<bar>x\<bar>\<rfloor> (- 1022)) - 52)"

definition roundDouble :: "real \<Rightarrow> real" where
  "roundDouble x = (if x = 0 then 0 else ulp x * of_int (roundHalfEven (x / ulp x)))"

definition asNumber :: "real \<Rightarrow> jsnum" where
  "asNumber x =
     (let y = roundDouble x
      in if 2 ^ 1024 \<le> y then PosInf else if y \<le> - (2 ^ 1024) then NegInf else Num y)"

fun js_neg :: "jsnum \<Rightarrow> jsnum" where
  "js_neg (Num x) = Num (- x)"
| "js_neg PosInf = NegInf"
| "js_neg NegInf = PosInf"
| "js_neg NaN = NaN"

fun js_add :: "jsnum \<Rightarrow> jsnum \<Rightarrow> jsnum" where
  "js_add NaN b = NaN"
| "js_add a NaN = NaN"
| "js_add (Num x) (Num y) = asNumber (x + y)"
| "js_add PosInf NegInf = NaN"
| "js_add NegInf PosInf = NaN"
| "js_add PosInf b = PosInf"
| "js_add a PosInf = PosInf"
| "js_add NegInf b = NegInf"
| "js_add a NegInf = NegInf"

definition js_sub :: "jsnum \<Rightarrow> jsnum \<Rightarrow> jsnum" where
  "js_sub a b = js_add a (js_neg b)"

fun js_mul :: "jsnum \<Rightarrow> jsnum \<Rightarrow> jsnum" where
  "js_mul NaN b = NaN"
| "js_mul a NaN = NaN"
| "js_mul (Num x) (Num y) = asNumber (x * y)"
| "js_mul (Num x) PosInf = (if x = 0 then NaN else if 0 < x then PosInf else NegInf)"
| "js_mul (Num x) NegInf = (if x = 0 then NaN else if 0 < x then NegInf else PosInf)"
| "js_mul PosInf (Num y) = (if y = 0 then NaN else if 0 < y then PosInf else NegInf)"
| "js_mul NegInf (Num y) = (if y = 0 then NaN else if 0 < y then NegInf else PosInf)"
| "js_mul PosInf PosInf = PosInf"
| "js_mul PosInf NegInf = NegInf"
| "js_mul NegInf PosInf = NegInf"
| "js_mul NegInf NegInf = PosInf"

fun js_div :: "jsnum \<Rightarrow> jsnum \<Rightarrow> jsnum" where
  "js_div NaN b = NaN"
| "js_div a NaN = NaN"
| "js_div (Num x) (Num y) =
     (if y = 0 then (if x = 0 then NaN else if 0 < x then PosInf else NegInf)
      else asNumber (x / y))"
| "js_div (Num x) b = Num 0"
| "js_div PosInf (Num y) = (if 0 \<le> y then PosInf else NegInf)"
| "js_div NegInf (Num y) = (if 0 \<le> y then NegInf else PosInf)"
| "js_div a b = NaN"

text \<open>The comparison \<^verbatim>\<open>a > b\<close>.\<close>

fun js_gt :: "jsnum \<Rightarrow> jsnum \<Rightarrow> bool" where
  "js_gt NaN b = False"
| "js_gt a NaN = False"
| "js_gt (Num x) (Num y) = (y < x)"
| "js_gt PosInf PosInf = False"
| "js_gt PosInf b = True"
| "js_gt NegInf b = False"
| "js_gt a NegInf = True"
| "js_gt a PosInf = False"

text \<open>\<^verbatim>\<open>Math.floor\<close>, \<^verbatim>\<open>Math.round\<close> (to the nearest integer, a tie towards \<open>+\<infinity>\<close>) and
  \<^verbatim>\<open>Math.min\<close> are exact.\<close>

fun Math_floor :: "jsnum \<Rightarrow> jsnum" where
  "Math_floor (Num x) = Num (of_int \<lfloor>x\<rfloor>)"
| "Math_floor a = a"

fun Math_round :: "jsnum \<Rightarrow> jsnum" where
  "Math_round (Num x) = Num (of_int \<lfloor>x + 1 / 2\<rfloor>)"
| "Math_round a = a"

fun Math_min :: "jsnum \<Rightarrow> jsnum \<Rightarrow> jsnum" where
  "Math_min NaN b = NaN"
| "Math_min a NaN = NaN"
| "Math_min NegInf b = NegInf"
| "Math_min a NegInf = NegInf"
| "Math_min PosInf b = b"
| "Math_min a PosInf = a"
| "Math_min (Num x) (Num y) = Num (min x y)"

text \<open>
  \<^verbatim>\<open>Math.log\<close> and \<^verbatim>\<open>Math.pow\<close> return implementation-approximated values, which the
  language leaves to the engine: \<open>logOf\<close> is the double the engine returns for the
  logarithm of a positive finite number other than \<open>1\<close>, and \<open>powOf\<close> the Number it
  returns for a finite base and an integer exponent of at least \<open>1\<close>. The other cases are
  fixed by the language: the logarithm of \<open>1\<close> is \<open>0\<close>, of \<open>0\<close> is \<open>-\<infinity>\<close>, of a negative
  number is \<^verbatim>\<open>NaN\<close>, and any number to the power \<open>0\<close> is \<open>1\<close>.
\<close>

record platform =
  logOf :: "real \<Rightarrow> real"
  powOf :: "real \<Rightarrow> nat \<Rightarrow> jsnum"

fun Math_log :: "platform \<Rightarrow> jsnum \<Rightarrow> jsnum" where
  "Math_log P (Num x) =
     (if x < 0 then NaN else if x = 0 then NegInf else if x = 1 then Num 0
      else Num (logOf P x))"
| "Math_log P PosInf = PosInf"
| "Math_log P NegInf = NaN"
| "Math_log P NaN = NaN"

definition Math_pow :: "platform \<Rightarrow> real \<Rightarrow> nat \<Rightarrow> jsnum" where
  "Math_pow P base exponent = (if exponent = 0 then Num 1 else powOf P base exponent)"

text \<open>An engine to compute with: its \<^verbatim>\<open>Math.log\<close> and \<^verbatim>\<open>Math.pow\<close> are correctly
  rounded, that is, they return the double nearest to the exact value.\<close>

definition referencePlatform :: platform where
  "referencePlatform =
     \<lparr>logOf = (\<lambda>x. roundDouble (ln x)),
      powOf = (\<lambda>base exponent. asNumber (base ^ exponent))\<rparr>"

text \<open>What the default sequence of delays needs of an engine: its logarithms of 18.75
  and 1.5 lie in \<open>[2.875, 2.96875]\<close> and \<open>[0.3984375, 0.41015625]\<close>, and its powers
  \<open>1.5^k\<close> are exact for \<open>k\<close> from 1 to 7 (they are doubles).\<close>

definition accurateAtDefaults :: "platform \<Rightarrow> bool" where
  "accurateAtDefaults P =
     (23 / 8 \<le> logOf P (75 / 4) \<and> logOf P (75 / 4) \<le> 95 / 32
      \<and> 51 / 128 \<le> logOf P (3 / 2) \<and> logOf P (3 / 2) \<le> 105 / 256
      \<and> (\<forall>k \<in> {1..7}. powOf P (3 / 2) k = Num ((3 / 2) ^ k)))"


section \<open>Reflector.js: \<^verbatim>\<open>randomize\<close> and the BackoffManager\<close>

text \<open>A call of \<^verbatim>\<open>Math.random()\<close> is a parameter \<open>r\<close>, the number drawn, with
  \<open>0 \<le> r < 1\<close>.\<close>

definition randomize :: "real \<Rightarrow> real \<Rightarrow> jsnum" where
  "randomize r duration = Math_round (js_mul (Num duration) (js_add (Num r) (Num 1)))"

text \<open>The fields \<^verbatim>\<open>min\<close> and \<^verbatim>\<open>max\<close> are \<open>min_delay\<close> and \<open>max_delay\<close> here; the fields
  hold finite numbers. \<open>timerPending\<close> says whether the timer behind \<^verbatim>\<open>timeoutId\<close> is set
  and has not fired or been cleared.\<close>

record backoffManager =
  min_delay :: real
  max_delay :: real
  factor :: real
  jitter :: real
  resetDuration :: real
  attempt :: nat
  timerPending :: bool

definition newBackoffManager :: "real \<Rightarrow> real \<Rightarrow> real \<Rightarrow> real \<Rightarrow> real \<Rightarrow> backoffManager" where
  "newBackoffManager mn mx rd f j =
     \<lparr>min_delay = mn, max_delay = mx, factor = f,
      jitter = (if j > 0 \<and> j \<le> 1 then j else 0),
      resetDuration = rd, attempt = 0, timerPending = False\<rparr>"

text \<open>The defaults of the constructor (the literal \<^verbatim>\<open>0.1\<close> is the double nearest to one
  tenth), and the defaults with the jitter switched off.\<close>

definition defaultBackoffManager :: backoffManager where
  "defaultBackoffManager =
     newBackoffManager 800 (15 * 1000) (60 * 1000) (3 / 2) (roundDouble (1 / 10))"

definition steadyBackoffManager :: backoffManager where
  "steadyBackoffManager = newBackoffManager 800 (15 * 1000) (60 * 1000) (3 / 2) 0"

definition reset :: "backoffManager \<Rightarrow> backoffManager" where
  "reset b = b\<lparr>attempt := 0\<rparr>"

definition clearTimeout :: "backoffManager \<Rightarrow> backoffManager" where
  "clearTimeout b = b\<lparr>timerPending := False\<rparr>"

text \<open>The callback of \<^verbatim>\<open>setTimeout(() => this.reset(), this.resetDuration)\<close>, run by the
  event loop when the timer is still pending after \<open>resetDuration\<close> milliseconds.\<close>

definition timerFires :: "backoffManager \<Rightarrow> backoffManager" where
  "timerFires b = (if timerPending b then reset (b\<lparr>timerPending := False\<rparr>) else b)"

text \<open>\<^verbatim>\<open>Math.floor(Math.log(this.max / this.min) / Math.log(this.factor))\<close>.\<close>

definition threshold :: "platform \<Rightarrow> backoffManager \<Rightarrow> jsnum" where
  "threshold P b =
     Math_floor (js_div (Math_log P (js_div (Num (max_delay b)) (Num (min_delay b))))
                        (Math_log P (Num (factor b))))"

definition duration :: "platform \<Rightarrow> real \<Rightarrow> backoffManager \<Rightarrow> jsnum \<times> backoffManager" where
  "duration P r b =
     (let b1 = clearTimeout b;
          b2 = b1\<lparr>timerPending := True\<rparr>;
          attempt0 = attempt b2;
          b3 = b2\<lparr>attempt := attempt0 + 1\<rparr>
      in if js_gt (Num (real attempt0)) (threshold P b3)
         then (Num (max_delay b3), b3)
         else
           (let d0 = js_mul (Num (min_delay b3)) (Math_pow P (factor b3) attempt0);
                d1 = (if jitter b3 \<noteq> 0
                      then Math_floor
                             (js_mul
                                (js_add (Num 1)
                                   (js_mul (Num (jitter b3))
                                      (js_sub (js_mul (Num 2) (Num r)) (Num 1))))
                                d0)
                      else d0)
            in (Math_min (Math_floor d1) (Num (max_delay b3)), b3)))"

text \<open>Successive calls of \<^verbatim>\<open>duration()\<close> with no reset in between: the values returned by
  the first \<open>n\<close> calls, the \<open>i\<close>-th call drawing \<open>rs i\<close>.\<close>

fun durations :: "platform \<Rightarrow> (nat \<Rightarrow> real) \<Rightarrow> nat \<Rightarrow> backoffManager \<Rightarrow> jsnum list" where
  "durations P rs 0 b = []"
| "durations P rs (Suc n) b =
     (case duration P (rs 0) b of (d, b') \<Rightarrow> d # durations P (\<lambda>i. rs (Suc i)) n b')"

text \<open>The value of the \<open>k\<close>-th call when the jitter is off: \<open>max\<close> past the threshold, and
  the product rounded down and clamped before.\<close>

definition steadyDelay :: "platform \<Rightarrow> backoffManager \<Rightarrow> nat \<Rightarrow> jsnum" where
  "steadyDelay P b k =
     (if js_gt (Num (real k)) (threshold P b) then Num (max_delay b)
      else Math_min (Math_floor (js_mul (Num (min_delay b)) (Math_pow P (factor b) k)))
             (Num (max_delay b)))"

text \<open>A BackoffManager with \<^verbatim>\<open>min = max = 2.5\<close> and \<^verbatim>\<open>factor = 1.125\<close>.\<close>

definition levelBackoffManager :: backoffManager where
  "levelBackoffManager = newBackoffManager (5 / 2) (5 / 2) (60 * 1000) (9 / 8) 0"


section \<open>Reflector.js: the Reflector\<close>

text \<open>
  Error values. The Reflector constructs a \<^verbatim>\<open>StatusError\<close> from the object of an
  \<^verbatim>\<open>ERROR\<close> event and a plain \<^verbatim>\<open>Error\<close> for a very short watch, and calling a
  callback its store does not have is a \<^verbatim>\<open>TypeError\<close>; \<open>Raised x\<close> is an error \<open>x\<close>
  that comes from the ListWatcher or the pager.

  The module \<^verbatim>\<open>../ApiErrors\<close> is not part of the sources at hand; its three
  discriminators are parameters of the model.
\<close>

datatype ('x, 'o) jsError = Raised 'x | StatusError 'o | VeryShortWatch | TypeError

record ('x, 'o) apiErrors =
  isExpiredError :: "('x, 'o) jsError \<Rightarrow> bool"
  isConnectionRefused :: "('x, 'o) jsError \<Rightarrow> bool"
  isTooLargeResourceVersionError :: "('x, 'o) jsError \<Rightarrow> bool"

text \<open>How a call of an \<^verbatim>\<open>async\<close> function ends: it returns, it throws, or it stays at an
  \<^verbatim>\<open>await\<close> that the environment never settles.\<close>

datatype 'e completion = Returned | Threw 'e | Awaiting

text \<open>The ListWatcher as the Reflector reads it: \<^verbatim>\<open>group\<close>, \<^verbatim>\<open>version\<close>,
  \<^verbatim>\<open>names.kind\<close>, and the optional \<^verbatim>\<open>agent\<close> with a \<^verbatim>\<open>destroy\<close> function (\<open>Some d\<close>,
  where \<open>d\<close> says whether it has been destroyed).\<close>

record listWatcher =
  group :: "string option"
  version :: string
  names_kind :: "string option"
  agent :: "bool option"

text \<open>The store handed to the Reflector is any object with the callbacks \<^verbatim>\<open>replace\<close>,
  \<^verbatim>\<open>add\<close>, \<^verbatim>\<open>update\<close>, \<^verbatim>\<open>delete\<close> and \<^verbatim>\<open>setRefreshing\<close>, acting on a state \<open>'s\<close>.
  A callback the object lacks is \<open>None\<close>.\<close>

record ('o, 's) storeSink =
  sink_replace :: "'o list \<Rightarrow> 's \<Rightarrow> 's"
  sink_add :: "'o \<Rightarrow> 's \<Rightarrow> 's"
  sink_update :: "'o \<Rightarrow> 's \<Rightarrow> 's"
  sink_delete :: "'o \<Rightarrow> 's \<Rightarrow> 's"
  sink_setRefreshing :: "('s \<Rightarrow> 's) option"

datatype logLevel = LogDebug | LogInfo | LogWarn | LogError

text \<open>The fields of a Reflector; \<open>store\<close> is the state behind the store callbacks,
  \<open>period\<close> is in milliseconds and \<open>minWatchTimeout\<close> in seconds, and \<open>logged\<close> collects
  what the Reflector passes to the logger (level and format string).\<close>

record 's reflector =
  listWatcher :: listWatcher
  store :: 's
  period :: real
  minWatchTimeout :: real
  isLastSyncResourceVersionUnavailable :: bool
  lastSyncResourceVersion :: string
  paginatedResult :: bool
  stopRequested :: bool
  backoffManager :: backoffManager
  logged :: "(logLevel \<times> string) list"

definition newReflector :: "listWatcher \<Rightarrow> 's \<Rightarrow> 's reflector" where
  "newReflector lw st =
     \<lparr>listWatcher = lw, store = st, period = 1000, minWatchTimeout = 5 * 60,
      isLastSyncResourceVersionUnavailable = False, lastSyncResourceVersion = '''',
      paginatedResult = False, stopRequested = False,
      backoffManager = defaultBackoffManager, logged = []\<rparr>"

definition logger :: "logLevel \<Rightarrow> string \<Rightarrow> 's reflector \<Rightarrow> 's reflector" where
  "logger lvl msg r = r\<lparr>logged := logged r @ [(lvl, msg)]\<rparr>"

text \<open>The getters \<^verbatim>\<open>apiVersion\<close> and \<^verbatim>\<open>kind\<close>; an empty or missing group is falsy.\<close>

definition reflector_apiVersion :: "'s reflector \<Rightarrow> string option" where
  "reflector_apiVersion r =
     (case group (listWatcher r) of
        None \<Rightarrow> Some (version (listWatcher r))
      | Some g \<Rightarrow>
          if g \<noteq> '''' then Some (g @ ''/'' @ version (listWatcher r))
          else Some (version (listWatcher r)))"

definition reflector_kind :: "'s reflector \<Rightarrow> string option" where
  "reflector_kind r = names_kind (listWatcher r)"

definition relistResourceVersion :: "'s reflector \<Rightarrow> string" where
  "relistResourceVersion r =
     (if isLastSyncResourceVersionUnavailable r then ''''
      else if lastSyncResourceVersion r = '''' then ''0''
      else lastSyncResourceVersion r)"

definition stop :: "'s reflector \<Rightarrow> 's reflector" where
  "stop r =
     (let r1 = r\<lparr>stopRequested := True\<rparr>;
          r2 = (case agent (listWatcher r1) of
                  None \<Rightarrow> r1
                | Some d \<Rightarrow> r1\<lparr>listWatcher := (listWatcher r1)\<lparr>agent := Some True\<rparr>\<rparr>)
      in r2\<lparr>backoffManager := clearTimeout (backoffManager r2)\<rparr>)"

text \<open>A call of \<^verbatim>\<open>stop()\<close> from outside can only run while the Reflector is at an
  \<^verbatim>\<open>await\<close>; every scripted \<^verbatim>\<open>await\<close> below says whether that happened.\<close>

definition interrupted :: "bool \<Rightarrow> 's reflector \<Rightarrow> 's reflector" where
  "interrupted stopCalled r = (if stopCalled then stop r else r)"


subsection \<open>The watch handler\<close>

text \<open>What the watch stream yields: an \<^verbatim>\<open>Error\<close> value, or a record with \<^verbatim>\<open>type\<close> and
  \<^verbatim>\<open>object\<close>. The stream then closes after some milliseconds, breaks with an error, or
  never ends.\<close>

datatype ('x, 'o) watchData = ErrorValue 'x | Event string 'o

datatype 'x streamEnd = Closed nat | Broken 'x | Endless

record ('x, 'o) watchStream =
  yielded :: "('x, 'o) watchData list"
  ending :: "'x streamEnd"

text \<open>\<^verbatim>\<open>if (resourceVersion)\<close>: a missing and an empty resource version are falsy.\<close>

definition eventResourceVersion :: "'p kobject \<Rightarrow> string option" where
  "eventResourceVersion object =
     (case metadata object of None \<Rightarrow> None | Some m \<Rightarrow> resourceVersion m)"

definition truthy :: "string option \<Rightarrow> bool" where
  "truthy v = (case v of None \<Rightarrow> False | Some s \<Rightarrow> s \<noteq> '''')"

text \<open>The \<^verbatim>\<open>switch (type)\<close> of the handler.\<close>

definition dispatch ::
  "('o, 's) storeSink \<Rightarrow> string \<Rightarrow> 'o \<Rightarrow> 's reflector \<Rightarrow> 's reflector" where
  "dispatch sink type object r =
     (if type = ''ADDED'' then r\<lparr>store := sink_add sink object (store r)\<rparr>
      else if type = ''MODIFIED'' then r\<lparr>store := sink_update sink object (store r)\<rparr>
      else if type = ''DELETED'' then r\<lparr>store := sink_delete sink object (store r)\<rparr>
      else if type = ''BOOKMARK'' then r
      else logger LogError ''Unable to understand event %s for watch %s'' r)"

text \<open>The store callback that belongs to the type of a change event.\<close>

definition mutation :: "('o, 's) storeSink \<Rightarrow> string \<Rightarrow> 'o \<Rightarrow> 's \<Rightarrow> 's" where
  "mutation sink type object =
     (if type = ''ADDED'' then sink_add sink object
      else if type = ''MODIFIED'' then sink_update sink object
      else sink_delete sink object)"

text \<open>The body of the \<^verbatim>\<open>for await\<close> loop, for the events the stream yields: the error
  thrown, if any, and the Reflector afterwards.\<close>

fun watchEvents ::
  "('p kobject, 's) storeSink \<Rightarrow> ('x, 'p kobject) watchData list \<Rightarrow> 's reflector
   \<Rightarrow> ('x, 'p kobject) jsError option \<times> 's reflector" where
  "watchEvents sink [] r = (None, r)"
| "watchEvents sink (ErrorValue x # rest) r = (Some (Raised x), r)"
| "watchEvents sink (Event type object # rest) r =
     (if type = ''ERROR'' then (Some (StatusError object), r)
      else if apiVersion object \<noteq> reflector_apiVersion r \<or> kind object \<noteq> reflector_kind r
      then watchEvents sink rest
             (logger LogError ''Expected %s, but watch event object had %s'' r)
      else
        (let r1 = dispatch sink type object r;
             r2 = (if truthy (eventResourceVersion object)
                   then r1\<lparr>lastSyncResourceVersion := the (eventResourceVersion object)\<rparr>
                   else logger LogError
                          ''Received event object without resource version for watch %s'' r1)
         in watchEvents sink rest r2))"

definition watchHandler ::
  "('p kobject, 's) storeSink \<Rightarrow> ('x, 'p kobject) watchStream \<Rightarrow> 's reflector
   \<Rightarrow> ('x, 'p kobject) jsError completion \<times> 's reflector" where
  "watchHandler sink asyncIterable r =
     (case watchEvents sink (yielded asyncIterable) r of
        (Some err, r1) \<Rightarrow> (Threw err, r1)
      | (None, r1) \<Rightarrow>
          (case ending asyncIterable of
             Broken x \<Rightarrow> (Threw (Raised x), r1)
           | Endless \<Rightarrow> (Awaiting, r1)
           | Closed watchDuration \<Rightarrow>
               if watchDuration < 1000 \<and> length (yielded asyncIterable) = 0
               then (Threw VeryShortWatch, r1)
               else (Returned,
                     logger LogInfo ''Watch %s closed - total %d items received within %s'' r1)))"


subsection \<open>List and watch\<close>

text \<open>
  The module \<^verbatim>\<open>./ListPager\<close> is not part of the sources at hand either. A call of
  \<^verbatim>\<open>pager.list(options)\<close> is answered by the environment, which sees the resource version
  asked for and the page size set on the pager (\<open>None\<close>: the pager's default), and
  rejects with an error or resolves to a list. Likewise for \<^verbatim>\<open>listWatcher.watch(options)\<close>.
  The answers are scripted in the order of the calls; a call beyond the script is never
  answered.
\<close>

record listOptions =
  list_resourceVersion :: string
  pageSize :: "nat option"

record 'o listResult =
  metadata_resourceVersion :: string
  metadata_paginated :: bool
  list_items :: "'o list"

record watchOptions =
  allowWatchBookmarks :: bool
  timeoutSeconds :: jsnum
  watch_resourceVersion :: string

record ('x, 'o) listCall =
  listAnswer :: "listOptions \<Rightarrow> ('x, 'o) jsError + 'o listResult"
  stopDuringList :: bool

record ('x, 'o) watchCall =
  random :: real
  watchAnswer :: "watchOptions \<Rightarrow> ('x, 'o) jsError + ('x, 'o) watchStream"
  stopDuringWatch :: bool

record ('x, 'o) environment =
  listCalls :: "('x, 'o) listCall list"
  watchCalls :: "('x, 'o) watchCall list"

text \<open>The watch loop at the end of \<^verbatim>\<open>listAndWatch\<close>. One pass through the body of
  \<^verbatim>\<open>while (!this.stopRequested)\<close> either goes round again (the handler returned, or the
  connection was refused and the delay of \<^verbatim>\<open>randomize(period)\<close> milliseconds is over) or
  ends \<^verbatim>\<open>listAndWatch\<close>.\<close>

datatype ('e, 's) pass = Again "'s reflector" | Done "'e completion" "'s reflector"

definition watchOnce ::
  "('x, 'p kobject) apiErrors \<Rightarrow> ('p kobject, 's) storeSink \<Rightarrow> ('x, 'p kobject) watchCall
   \<Rightarrow> 's reflector \<Rightarrow> (('x, 'p kobject) jsError, 's) pass" where
  "watchOnce api sink w r =
     (let options = \<lparr>allowWatchBookmarks = True,
                     timeoutSeconds = randomize (random w) (minWatchTimeout r),
                     watch_resourceVersion = lastSyncResourceVersion r\<rparr>
      in if stopRequested r then Done Returned r
         else
           (let r1 = logger LogDebug ''Watch %s with resourceVersion %s'' r;
                (outcome, r2) =
                  (case watchAnswer w options of
                     Inl err \<Rightarrow> (Threw err, interrupted (stopDuringWatch w) r1)
                   | Inr asyncIterable \<Rightarrow>
                       watchHandler sink asyncIterable (interrupted (stopDuringWatch w) r1))
            in case outcome of
                 Returned \<Rightarrow> Again r2
               | Awaiting \<Rightarrow> Done Awaiting r2
               | Threw err \<Rightarrow>
                   if isConnectionRefused api err
                   then Again (logger LogInfo ''Watch of %s connection refused with: %s'' r2)
                   else if isExpiredError api err
                   then Done Returned (logger LogInfo ''Watch of %s closed with: %s'' r2)
                   else Done Returned (logger LogWarn ''Watch of %s ended with: %s'' r2)))"

fun watchLoop ::
  "('x, 'p kobject) apiErrors \<Rightarrow> ('p kobject, 's) storeSink \<Rightarrow> ('x, 'p kobject) watchCall list
   \<Rightarrow> 's reflector
   \<Rightarrow> ('x, 'p kobject) jsError completion \<times> 's reflector \<times> ('x, 'p kobject) watchCall list"
where
  "watchLoop api sink [] r =
     (if stopRequested r then (Returned, r, [])
      else (Awaiting, logger LogDebug ''Watch %s with resourceVersion %s'' r, []))"
| "watchLoop api sink (w # ws) r =
     (if stopRequested r then (Returned, r, w # ws)
      else
        (case watchOnce api sink w r of
           Again r' \<Rightarrow> watchLoop api sink ws r'
         | Done outcome r' \<Rightarrow> (outcome, r', ws)))"

text \<open>\<^verbatim>\<open>listAndWatch\<close> after a list has been obtained: from the destructuring of
  \<^verbatim>\<open>list.metadata\<close> on.\<close>

definition listed ::
  "('x, 'p kobject) apiErrors \<Rightarrow> ('p kobject, 's) storeSink \<Rightarrow> listOptions
   \<Rightarrow> 'p kobject listResult \<Rightarrow> ('x, 'p kobject) watchCall list \<Rightarrow> 's reflector
   \<Rightarrow> ('x, 'p kobject) jsError completion \<times> 's reflector \<times> ('x, 'p kobject) watchCall list"
where
  "listed api sink options list ws r =
     (let r1 = logger LogDebug ''List of %s successfully returned %d items (%s)'' r;
          r2 = (if list_resourceVersion options = ''0'' \<and> metadata_paginated list
                then r1\<lparr>paginatedResult := True\<rparr> else r1);
          r3 = r2\<lparr>isLastSyncResourceVersionUnavailable := False\<rparr>;
          r4 = r3\<lparr>store := sink_replace sink (list_items list) (store r3)\<rparr>;
          r5 = r4\<lparr>lastSyncResourceVersion := metadata_resourceVersion list\<rparr>
      in watchLoop api sink ws r5)"

text \<open>The options of the first list call: the relist resource version, and the page size
  left on the pager.\<close>

definition listOptionsOf :: "'s reflector \<Rightarrow> listOptions" where
  "listOptionsOf r =
     \<lparr>list_resourceVersion = relistResourceVersion r,
      pageSize =
        (if paginatedResult r then None
         else if relistResourceVersion r \<noteq> '''' \<and> relistResourceVersion r \<noteq> ''0''
         then Some 0 else None)\<rparr>"

definition listAndWatch ::
  "('x, 'p kobject) apiErrors \<Rightarrow> ('p kobject, 's) storeSink \<Rightarrow> ('x, 'p kobject) environment
   \<Rightarrow> 's reflector
   \<Rightarrow> ('x, 'p kobject) jsError completion \<times> 's reflector \<times> ('x, 'p kobject) environment"
where
  "listAndWatch api sink env r =
     (let options = listOptionsOf r
      in case sink_setRefreshing sink of
           None \<Rightarrow> (Threw TypeError, r, env)
         | Some setRefreshing \<Rightarrow>
             (let r1 = r\<lparr>store := setRefreshing (store r)\<rparr>;
                  r2 = logger LogDebug ''List %s with resourceVersion %s'' r1
              in case listCalls env of
                   [] \<Rightarrow> (Awaiting, r2, env)
                 | l # ls \<Rightarrow>
                     (let r3 = interrupted (stopDuringList l) r2
                      in case listAnswer l options of
                           Inr list \<Rightarrow>
                             (case listed api sink options list (watchCalls env) r3 of
                                (outcome, r4, ws) \<Rightarrow>
                                  (outcome, r4, \<lparr>listCalls = ls, watchCalls = ws\<rparr>))
                         | Inl err \<Rightarrow>
                             if isExpiredError api err \<or> isTooLargeResourceVersionError api err
                             then
                               (let r4 = r3\<lparr>isLastSyncResourceVersionUnavailable := True\<rparr>;
                                    r5 = logger LogDebug ''Falling back to full list %s'' r4
                                in case ls of
                                     [] \<Rightarrow> (Awaiting, r5, env\<lparr>listCalls := []\<rparr>)
                                   | l' # ls' \<Rightarrow>
                                       (let r6 = interrupted (stopDuringList l') r5
                                        in case listAnswer l'
                                                  (options\<lparr>list_resourceVersion :=
                                                     relistResourceVersion r5\<rparr>) of
                                             Inl err' \<Rightarrow>
                                               (Returned,
                                                logger LogError
                                                  ''Failed to call full list %s: %s'' r6,
                                                env\<lparr>listCalls := ls'\<rparr>)
                                           | Inr list \<Rightarrow>
                                               (Returned,
                                                logger LogError
                                                  ''Failed to call paginated list %s: %s'' r6,
                                                env\<lparr>listCalls := ls'\<rparr>)))
                             else
                               (Returned,
                                logger LogError ''Failed to call paginated list %s: %s'' r3,
                                env\<lparr>listCalls := ls\<rparr>))))"

text \<open>\<^verbatim>\<open>run\<close>: the outer loop. Each \<^verbatim>\<open>await delay(this.backoffManager.duration())\<close> is
  scripted with the number \<^verbatim>\<open>Math.random()\<close> gives to \<^verbatim>\<open>duration()\<close> and with whether
  \<^verbatim>\<open>stop()\<close> is called during the delay; a delay beyond the script never ends (the
  call of \<^verbatim>\<open>duration()\<close> before it still counts the attempt, whatever number is drawn).\<close>

record backoffSleep =
  jitterRandom :: real
  stopDuringSleep :: bool

text \<open>One pass through the body of \<^verbatim>\<open>while (!this.stopRequested)\<close> in \<^verbatim>\<open>run\<close>, up to the
  \<^verbatim>\<open>await delay(...)\<close>: the loop is left (\<open>Done\<close>), or the Reflector is about to sleep.\<close>

definition runOnce ::
  "('x, 'p kobject) apiErrors \<Rightarrow> ('p kobject, 's) storeSink \<Rightarrow> ('x, 'p kobject) environment
   \<Rightarrow> 's reflector \<Rightarrow> (unit, 's) pass \<times> ('x, 'p kobject) environment" where
  "runOnce api sink env r =
     (case listAndWatch api sink env r of
        (Awaiting, r1, env1) \<Rightarrow> (Done Awaiting r1, env1)
      | (outcome, r1, env1) \<Rightarrow>
          (let r2 = (case outcome of
                       Threw err \<Rightarrow> logger LogError ''Failed to list and watch %s: %s'' r1
                     | _ \<Rightarrow> r1)
           in if stopRequested r2 then (Done Returned r2, env1)
              else (Again (logger LogInfo ''Restarting reflector %s'' r2), env1)))"

definition sleep :: "platform \<Rightarrow> backoffSleep \<Rightarrow> 's reflector \<Rightarrow> 's reflector" where
  "sleep P sl r =
     (case duration P (jitterRandom sl) (backoffManager r) of
        (ms, b) \<Rightarrow> interrupted (stopDuringSleep sl) (r\<lparr>backoffManager := b\<rparr>))"

fun runLoop ::
  "platform \<Rightarrow> ('x, 'p kobject) apiErrors \<Rightarrow> ('p kobject, 's) storeSink \<Rightarrow> backoffSleep list
   \<Rightarrow> ('x, 'p kobject) environment \<Rightarrow> 's reflector
   \<Rightarrow> unit completion \<times> 's reflector \<times> ('x, 'p kobject) environment"
where
  "runLoop P api sink sleeps env r =
     (if stopRequested r then (Returned, r, env)
      else
        (case runOnce api sink env r of
           (Done outcome r1, env1) \<Rightarrow> (outcome, r1, env1)
         | (Again r1, env1) \<Rightarrow>
             (case sleeps of
                [] \<Rightarrow>
                  (Awaiting, r1\<lparr>backoffManager := snd (duration P 0 (backoffManager r1))\<rparr>,
                   env1)
              | sl # sleeps' \<Rightarrow> runLoop P api sink sleeps' env1 (sleep P sl r1))))"

declare runLoop.simps [simp del]

definition run ::
  "platform \<Rightarrow> ('x, 'p kobject) apiErrors \<Rightarrow> ('p kobject, 's) storeSink \<Rightarrow> backoffSleep list
   \<Rightarrow> ('x, 'p kobject) environment \<Rightarrow> 's reflector
   \<Rightarrow> unit completion \<times> 's reflector \<times> ('x, 'p kobject) environment"
where
  "run P api sink sleeps env r =
     (case runLoop P api sink sleeps env (logger LogInfo ''Starting reflector %s'' r) of
        (Awaiting, r1, env1) \<Rightarrow> (Awaiting, r1, env1)
      | (outcome, r1, env1) \<Rightarrow> (outcome, logger LogInfo ''Stopped reflector %s'' r1, env1))"


section \<open>Informer.js\<close>

text \<open>
  The Informer hands the Reflector an object whose callbacks close over the Store and
  the Informer as event emitter. \<^verbatim>\<open>emit\<close> calls the subscribers at once, so an
  emission is recorded with its name, its arguments and the Store as a subscriber finds
  it at that moment. The object has no \<^verbatim>\<open>setRefreshing\<close>.
\<close>

datatype 'o payload = Items "'o list" | Object 'o

record ('k, 'o) emission =
  eventName :: string
  eventArgs :: "'o payload"
  storeSeen :: "('k, 'o) store"

record ('k, 'o) informerState =
  kStore :: "('k, 'o) store"
  emitted :: "('k, 'o) emission list"

definition emit ::
  "string \<Rightarrow> 'o payload \<Rightarrow> ('k, 'o) informerState \<Rightarrow> ('k, 'o) informerState" where
  "emit name args st =
     st\<lparr>emitted := emitted st @ [\<lparr>eventName = name, eventArgs = args, storeSeen = kStore st\<rparr>]\<rparr>"

definition informer_replace ::
  "'o list \<Rightarrow> ('k, 'o) informerState \<Rightarrow> ('k, 'o) informerState" where
  "informer_replace args st =
     emit ''REPLACE'' (Items args) (st\<lparr>kStore := Store_replace args (kStore st)\<rparr>)"

definition informer_add :: "'o \<Rightarrow> ('k, 'o) informerState \<Rightarrow> ('k, 'o) informerState" where
  "informer_add object st =
     emit ''ADD'' (Object object) (st\<lparr>kStore := Store_add object (kStore st)\<rparr>)"

definition informer_update :: "'o \<Rightarrow> ('k, 'o) informerState \<Rightarrow> ('k, 'o) informerState" where
  "informer_update object st =
     emit ''UPDATE'' (Object object) (st\<lparr>kStore := Store_update object (kStore st)\<rparr>)"

definition informer_delete :: "'o \<Rightarrow> ('k, 'o) informerState \<Rightarrow> ('k, 'o) informerState" where
  "informer_delete object st =
     emit ''DELETE'' (Object object) (st\<lparr>kStore := Store_delete object (kStore st)\<rparr>)"

definition informerSink :: "('o, ('k, 'o) informerState) storeSink" where
  "informerSink =
     \<lparr>sink_replace = informer_replace, sink_add = informer_add,
      sink_update = informer_update, sink_delete = informer_delete,
      sink_setRefreshing = None\<rparr>"

text \<open>
  \<^verbatim>\<open>run(signal)\<close> makes an AbortController, lets an abort of the caller's signal abort
  it, calls \<^verbatim>\<open>this[kReflector].run(ac.signal)\<close> and returns \<^verbatim>\<open>() => ac.abort()\<close>.
  \<^verbatim>\<open>abort()\<close> marks the controller and runs the listeners registered on its signal;
  \<open>onabort\<close> holds them, as actions on the Reflector. \<^verbatim>\<open>Reflector.run\<close> is declared
  without a parameter, so the signal passed to it is dropped and no listener is ever
  registered on it. The loop that \<^verbatim>\<open>Reflector.run\<close> starts is \<^const>\<open>run\<close>.
\<close>

record 's abortController =
  aborted :: bool
  onabort :: "('s reflector \<Rightarrow> 's reflector) list"

record ('k, 'o) informer =
  kReflector :: "('k, 'o) informerState reflector"
  controller :: "('k, 'o) informerState abortController option"
  followsSignal :: bool

definition newInformer :: "listWatcher \<Rightarrow> (string option, 'p kobject) informer" where
  "newInformer lw =
     \<lparr>kReflector = newReflector lw \<lparr>kStore = newStore uidKey, emitted = []\<rparr>,
      controller = None, followsSignal = False\<rparr>"

definition informer_store :: "('k, 'o) informer \<Rightarrow> ('k, 'o) store" where
  "informer_store informer = kStore (store (kReflector informer))"

definition informer_hasSynced :: "('k, 'o) informer \<Rightarrow> bool promise" where
  "informer_hasSynced informer = hasSynced (informer_store informer)"

definition informer_lastSyncResourceVersion :: "('k, 'o) informer \<Rightarrow> string" where
  "informer_lastSyncResourceVersion informer = lastSyncResourceVersion (kReflector informer)"

text \<open>\<open>signalGiven\<close>: the argument of \<^verbatim>\<open>run\<close> is an \<^verbatim>\<open>AbortSignal\<close>.\<close>

definition informer_run :: "bool \<Rightarrow> ('k, 'o) informer \<Rightarrow> ('k, 'o) informer" where
  "informer_run signalGiven informer =
     informer\<lparr>controller := Some \<lparr>aborted = False, onabort = []\<rparr>, followsSignal := signalGiven\<rparr>"

definition abort :: "('k, 'o) informer \<Rightarrow> ('k, 'o) informer" where
  "abort informer =
     (case controller informer of
        None \<Rightarrow> informer
      | Some ac \<Rightarrow>
          if aborted ac then informer
          else informer\<lparr>controller := Some (ac\<lparr>aborted := True\<rparr>),
                   kReflector := fold (\<lambda>listener r. listener r) (onabort ac) (kReflector informer)\<rparr>)"

text \<open>The handle \<^verbatim>\<open>run\<close> returns, and the abort of the caller's signal (its listener is
  registered with \<^verbatim>\<open>once: true\<close>).\<close>

definition cancelHandle :: "('k, 'o) informer \<Rightarrow> ('k, 'o) informer" where
  "cancelHandle informer = abort informer"

definition signalAborts :: "('k, 'o) informer \<Rightarrow> ('k, 'o) informer" where
  "signalAborts informer =
     (if followsSignal informer then abort (informer\<lparr>followsSignal := False\<rparr>) else informer)"


section \<open>Scenarios\<close>

text \<open>Objects of the end-to-end scenarios: type \<^verbatim>\<open>v1, Kind=X\<close>, uids \<^verbatim>\<open>a\<close>,
  \<^verbatim>\<open>b\<close>, \<^verbatim>\<open>c\<close>.\<close>

definition mkObject :: "string \<Rightarrow> string \<Rightarrow> string \<Rightarrow> string option \<Rightarrow> 'p \<Rightarrow> 'p kobject" where
  "mkObject av k u rv p =
     \<lparr>apiVersion = Some av, kind = Some k,
      metadata = Some \<lparr>uid = Some u, resourceVersion = rv\<rparr>, payload = p\<rparr>"

definition objA :: "nat kobject" where
  "objA = mkObject ''v1'' ''X'' ''a'' (Some ''99'') 0"

definition objB :: "nat kobject" where
  "objB = mkObject ''v1'' ''X'' ''b'' (Some ''100'') 0"

definition objC :: "nat kobject" where
  "objC = mkObject ''v1'' ''X'' ''c'' (Some ''101'') 0"


text \<open>The ListWatcher of the scenarios, of type \<^verbatim>\<open>v1, Kind=X\<close> and without an agent, and
  an object of another kind.\<close>

definition watcherX :: listWatcher where
  "watcherX = \<lparr>group = None, version = ''v1'', names_kind = Some ''X'', agent = None\<rparr>"

definition objY :: "nat kobject" where
  "objY = mkObject ''v1'' ''Y'' ''y'' (Some ''103'') 0"

definition objNoVersion :: "nat kobject" where
  "objNoVersion = mkObject ''v1'' ''X'' ''d'' None 0"

text \<open>Errors of the environment, told apart the way the discriminators of
  \<^verbatim>\<open>../ApiErrors\<close> are specified to; a \<^verbatim>\<open>StatusError\<close> counts as none of the three here.\<close>

datatype failure = Expired | TooLargeResourceVersion | ConnectionRefused | OtherFailure

definition scenarioErrors :: "(failure, 'o) apiErrors" where
  "scenarioErrors =
     \<lparr>isExpiredError = (\<lambda>err. err = Raised Expired),
      isConnectionRefused = (\<lambda>err. err = Raised ConnectionRefused),
      isTooLargeResourceVersionError = (\<lambda>err. err = Raised TooLargeResourceVersion)\<rparr>"

text \<open>The Informer's callbacks together with a \<^verbatim>\<open>setRefreshing\<close> that does nothing.\<close>

definition refreshingSink :: "('o, ('k, 'o) informerState) storeSink" where
  "refreshingSink = informerSink\<lparr>sink_setRefreshing := Some (\<lambda>st. st)\<rparr>"

text \<open>Scenario 2 (expired list recovery): the first list is rejected as expired; the
  second, asked with the resource version \<^verbatim>\<open>""\<close>, resolves to an empty paginated list at
  resource version \<^verbatim>\<open>200\<close>.\<close>

definition recoveryList :: "nat kobject listResult" where
  "recoveryList =
     \<lparr>metadata_resourceVersion = ''200'', metadata_paginated = True, list_items = []\<rparr>"

definition expiredThenListed :: "(failure, nat kobject) environment" where
  "expiredThenListed =
     \<lparr>listCalls =
        [\<lparr>listAnswer = (\<lambda>options. Inl (Raised Expired)), stopDuringList = False\<rparr>,
         \<lparr>listAnswer = (\<lambda>options. if list_resourceVersion options = ''''
                                    then Inr recoveryList else Inl (Raised OtherFailure)),
          stopDuringList = False\<rparr>],
      watchCalls = []\<rparr>"

definition reflectorX :: "(string option, nat kobject) informerState reflector" where
  "reflectorX = newReflector watcherX \<lparr>kStore = newStore uidKey, emitted = []\<rparr>"


text \<open>A list that succeeds at once with the object \<^verbatim>\<open>a\<close>, and a backoff delay during
  which nobody calls \<^verbatim>\<open>stop()\<close>.\<close>

definition listsA :: "(failure, nat kobject) environment" where
  "listsA =
     \<lparr>listCalls =
        [\<lparr>listAnswer = (\<lambda>options. Inr \<lparr>metadata_resourceVersion = ''100'',
                                            metadata_paginated = False,
                                            list_items = [objA]\<rparr>),
          stopDuringList = False\<rparr>],
      watchCalls = []\<rparr>"

definition steadySleep :: backoffSleep where
  "steadySleep = \<lparr>jitterRandom = 1 / 2, stopDuringSleep = False\<rparr>"


section \<open>Properties of the Store\<close>

lemma content_newStore: "content (newStore kf) = Map.empty"
  by (simp add: content_def newStore_def)

lemma content_add: "content (Store_add object s) = (content s)(keyFunc s object \<mapsto> object)"
  by (simp add: content_def Store_add_def Let_def AList.update_conv')

lemma content_update:
  "content (Store_update object s) = (content s)(keyFunc s object \<mapsto> object)"
  by (simp add: content_def Store_update_def Let_def AList.update_conv')

lemma content_delete:
  "content (Store_delete object s) = (content s)(keyFunc s object := None)"
  by (simp add: content_def Store_delete_def Let_def AList.delete_conv')

lemma keyFunc_simps:
  "keyFunc (newStore kf) = kf"
  "keyFunc (Store_add object s) = keyFunc s"
  "keyFunc (Store_update object s) = keyFunc s"
  "keyFunc (Store_delete object s) = keyFunc s"
  "keyFunc (Store_replace items s) = keyFunc s"
  by (simp_all add: newStore_def Store_add_def Store_update_def Store_delete_def
        Store_replace_def clear_def Let_def)

lemma hasSynced_simps:
  "hasSynced (newStore kf) = Pending"
  "hasSynced (Store_add object s) = hasSynced s"
  "hasSynced (Store_update object s) = hasSynced s"
  "hasSynced (Store_delete object s) = hasSynced s"
  by (simp_all add: newStore_def Store_add_def Store_update_def Store_delete_def Let_def)

lemma uidKey_mkObject: "uidKey (mkObject av k u rv p) = Some u"
  by (simp add: uidKey_def mkObject_def)

lemma map_of_setAll: "map_of (setAll kf items al) = map_of al ++ itemsMap kf items"
proof (induction items arbitrary: al)
  case Nil
  show ?case by (simp add: itemsMap_def)
next
  case (Cons object items)
  have "map_of (setAll kf (object # items) al)
        = map_of (AList.update (kf object) object al) ++ itemsMap kf items"
    by (simp only: setAll.simps Cons.IH)
  also have "\<dots> = (map_of al)(kf object \<mapsto> object) ++ itemsMap kf items"
    by (simp only: AList.update_conv')
  also have "\<dots> = map_of al ++ ([kf object \<mapsto> object] ++ itemsMap kf items)"
    by (rule ext) (simp add: map_add_def split: option.splits)
  also have "\<dots> = map_of al ++ itemsMap kf (object # items)"
    by (simp add: itemsMap_def)
  finally show ?case .
qed

lemma content_replace: "content (Store_replace items s) = itemsMap (keyFunc s) items"
  by (simp add: content_def Store_replace_def clear_def map_of_setAll Let_def)

lemma dom_itemsMap: "dom (itemsMap kf items) = kf ` set items"
  by (simp add: itemsMap_def dom_map_of_conv_image_fst image_image)

lemma itemsMap_distinct:
  "distinct (map kf items) \<Longrightarrow> object \<in> set items \<Longrightarrow>
   itemsMap kf items (kf object) = Some object"
  unfolding itemsMap_def
  by (rule map_of_is_SomeI) (auto simp: rev_map[symmetric] comp_def distinct_map)

lemma itemsMap_in:
  "itemsMap kf items k = Some object \<Longrightarrow> object \<in> set items \<and> kf object = k"
  unfolding itemsMap_def by (auto dest!: map_of_SomeD)

lemma hasSynced_replace: "hasSynced (Store_replace items s) = resolve True (hasSynced s)"
  by (simp add: Store_replace_def clear_def Let_def)

lemmas store_eval = content_newStore content_add content_update content_delete content_replace
  keyFunc_simps hasSynced_simps hasSynced_replace

lemma resolve_True: "p \<noteq> Resolved False \<Longrightarrow> resolve True p = Resolved True"
  by (cases p) auto

lemma hasSynced_call: "hasSynced s = Resolved True \<Longrightarrow> hasSynced (call c s) = Resolved True"
  by (cases c)
     (simp_all add: Store_add_def Store_update_def Store_delete_def Store_replace_def
        clear_def Let_def)

lemma hasSynced_calls: "hasSynced s = Resolved True \<Longrightarrow> hasSynced (calls cs s) = Resolved True"
  by (induction cs arbitrary: s) (simp_all add: hasSynced_call)

text \<open>The resolve function of \<^verbatim>\<open>hasSynced\<close> is only ever called with \<^verbatim>\<open>true\<close>, so no
  Store reached from a new one has the promise resolved to \<^verbatim>\<open>false\<close>.\<close>

lemma never_False_call:
  "hasSynced s \<noteq> Resolved False \<Longrightarrow> hasSynced (call c s) \<noteq> Resolved False"
  by (cases c; cases "hasSynced s")
     (simp_all add: Store_add_def Store_update_def Store_delete_def Store_replace_def
        clear_def Let_def)

lemma never_False_calls:
  "hasSynced s \<noteq> Resolved False \<Longrightarrow> hasSynced (calls cs s) \<noteq> Resolved False"
  by (induction cs arbitrary: s) (simp_all add: never_False_call)

lemma never_False_newStore: "hasSynced (calls cs (newStore kf)) \<noteq> Resolved False"
  by (rule never_False_calls) (simp add: newStore_def)

text \<open>
  Claim C4. For every prior store and every sequence of items, after \<^verbatim>\<open>replace(items)\<close>
  the mapping of the store is the one the items denote: its keys are exactly the keys
  derived from the items, every stored object is an item filed under its own key (the
  last item wins where two items derive one key, and each item is stored under its key
  when the keys are distinct), every key held before and not derived from the items is
  gone, and \<^verbatim>\<open>hasSynced\<close> is resolved to true and stays so under every later sequence
  of calls. The hypothesis holds of every Store: the promise is never resolved to false
  (\<open>never_False_newStore\<close>).
\<close>

theorem replace_contents:
  assumes "hasSynced s \<noteq> Resolved False"
  shows "content (Store_replace items s) = itemsMap (keyFunc s) items
    \<and> dom (content (Store_replace items s)) = keyFunc s ` set items
    \<and> (\<forall>k object. content (Store_replace items s) k = Some object
          \<longrightarrow> object \<in> set items \<and> keyFunc s object = k)
    \<and> (\<forall>object \<in> set items. distinct (map (keyFunc s) items)
          \<longrightarrow> content (Store_replace items s) (keyFunc s object) = Some object)
    \<and> (\<forall>k \<in> dom (content s). k \<notin> keyFunc s ` set items
          \<longrightarrow> content (Store_replace items s) k = None)
    \<and> hasSynced (Store_replace items s) = Resolved True
    \<and> (\<forall>cs. hasSynced (calls cs (Store_replace items s)) = Resolved True)"
proof -
  let ?s' = "Store_replace items s"
  have c: "content ?s' = itemsMap (keyFunc s) items" by (rule content_replace)
  have d: "dom (content ?s') = keyFunc s ` set items" by (simp add: c dom_itemsMap)
  have h: "hasSynced ?s' = Resolved True"
    using assms by (simp add: hasSynced_replace resolve_True)
  have gone: "\<forall>k \<in> dom (content s). k \<notin> keyFunc s ` set items \<longrightarrow> content ?s' k = None"
    using d by (metis domIff)
  show ?thesis
    using c d h gone by (auto simp: hasSynced_calls itemsMap_distinct dest: itemsMap_in)
qed

theorem replace_contents_witness:
  "hasSynced (Store_add objA (newStore uidKey)) \<noteq> Resolved False
   \<and> content (Store_add objA (newStore uidKey)) (Some ''a'') = Some objA
   \<and> dom (content (Store_replace [objB, objC] (Store_add objA (newStore uidKey))))
       = {Some ''b'', Some ''c''}
   \<and> content (Store_replace [objB, objC] (Store_add objA (newStore uidKey))) (Some ''a'') = None
   \<and> content (Store_replace [objB, objC] (Store_add objA (newStore uidKey))) (Some ''c'')
       = Some objC
   \<and> hasSynced (calls [Delete objB]
         (Store_replace [objB, objC] (Store_add objA (newStore uidKey)))) = Resolved True"
proof -
  let ?s = "Store_add objA (newStore uidKey) :: (string option, nat kobject) store"
  have h: "hasSynced ?s \<noteq> Resolved False"
    by (simp add: store_eval)
  have k: "keyFunc ?s = uidKey" by (simp add: store_eval)
  have a: "content ?s (Some ''a'') = Some objA"
    by (simp add: store_eval objA_def uidKey_mkObject)
  have i: "itemsMap uidKey [objB, objC] (Some ''a'') = None"
          "itemsMap uidKey [objB, objC] (Some ''c'') = Some objC"
    by (simp_all add: itemsMap_def objB_def objC_def uidKey_mkObject)
  have u: "uidKey ` set [objB, objC] = {Some ''b'', Some ''c''}"
    by (simp add: objB_def objC_def uidKey_mkObject)
  from replace_contents [OF h, of "[objB, objC]"] have
    "dom (content (Store_replace [objB, objC] ?s)) = uidKey ` set [objB, objC]"
    "content (Store_replace [objB, objC] ?s) = itemsMap uidKey [objB, objC]"
    "hasSynced (calls [Delete objB] (Store_replace [objB, objC] ?s)) = Resolved True"
    unfolding k by blast+
  with h a i u show ?thesis by simp
qed

text \<open>
  Claim C8, as stated: \<^verbatim>\<open>add(o); delete(o)\<close> leaves the content of every store as it
  was. It fails on a store that already holds the key of \<open>o\<close>: the entry is gone
  afterwards.
\<close>

theorem add_delete_counterexample:
  "content (Store_delete objA (Store_add objA (Store_add objA (newStore uidKey))))
     \<noteq> content (Store_add objA (newStore uidKey))"
proof -
  have "content (Store_delete objA (Store_add objA (Store_add objA (newStore uidKey))))
          (Some ''a'') = None"
    by (simp add: store_eval objA_def uidKey_mkObject)
  moreover have "content (Store_add objA (newStore uidKey)) (Some ''a'') = Some objA"
    by (simp add: store_eval objA_def uidKey_mkObject)
  ultimately show ?thesis by (metis option.distinct(1))
qed

text \<open>
  Claim C8, amended. For every store and every object \<open>o\<close>, \<^verbatim>\<open>add(o); delete(o)\<close>
  leaves the content of the store with the key of \<open>o\<close> removed and every other key as
  it was; the composite is a no-op on the content exactly when the store did not hold
  the key of \<open>o\<close> before, and then the Map is entry for entry the one before.
\<close>

theorem add_delete:
  "content (Store_delete object (Store_add object s)) = (content s)(keyFunc s object := None)
   \<and> ((content (Store_delete object (Store_add object s)) = content s)
        = (keyFunc s object \<notin> dom (content s)))
   \<and> (keyFunc s object \<notin> dom (content s) \<longrightarrow>
        entries (Store_delete object (Store_add object s)) = entries s)"
proof -
  have 1: "content (Store_delete object (Store_add object s))
             = (content s)(keyFunc s object := None)"
    by (simp add: store_eval)
  have 2: "((content s)(keyFunc s object := None) = content s)
             = (keyFunc s object \<notin> dom (content s))"
    by (metis domIff fun_upd_idem_iff)
  have 3: "keyFunc s object \<notin> dom (content s) \<longrightarrow>
             entries (Store_delete object (Store_add object s)) = entries s"
    by (simp add: content_def Store_delete_def Store_add_def Let_def
          AList.delete_update_same dom_map_of_conv_image_fst)
  from 1 2 3 show ?thesis by simp
qed

theorem add_delete_witness:
  "uidKey objB \<notin> dom (content (Store_add objA (newStore uidKey)))
   \<and> content (Store_delete objB (Store_add objB (Store_add objA (newStore uidKey))))
      = content (Store_add objA (newStore uidKey))"
proof -
  let ?s = "Store_add objA (newStore uidKey) :: (string option, nat kobject) store"
  have k: "keyFunc ?s = uidKey" by (simp add: store_eval)
  have h: "uidKey objB \<notin> dom (content ?s)"
    by (simp add: store_eval objA_def objB_def uidKey_mkObject)
  with add_delete [of objB ?s] show ?thesis by (simp add: k)
qed


section \<open>Properties of \<^verbatim>\<open>randomize\<close> and the BackoffManager\<close>

subsection \<open>Rounding to a double\<close>

lemma roundHalfEven_bounds: "\<lfloor>y\<rfloor> \<le> roundHalfEven y \<and> roundHalfEven y \<le> \<lfloor>y\<rfloor> + 1"
  by (simp add: roundHalfEven_def Let_def)

lemma roundHalfEven_ge:
  assumes "of_int a \<le> y" shows "a \<le> roundHalfEven y"
proof -
  have "a \<le> \<lfloor>y\<rfloor>" using assms by (simp add: le_floor_iff)
  with roundHalfEven_bounds [of y] show ?thesis by linarith
qed

lemma roundHalfEven_le:
  assumes "y \<le> of_int b" shows "roundHalfEven y \<le> b"
proof (cases "y = of_int b")
  case True
  then show ?thesis by (simp add: roundHalfEven_def)
next
  case False
  with assms have "y < of_int b" by simp
  then have "\<lfloor>y\<rfloor> < b" by (simp add: floor_less_iff)
  with roundHalfEven_bounds [of y] show ?thesis by linarith
qed

lemma ulp_pos: "0 < ulp x"
  by (simp add: ulp_def)

text \<open>Below \<open>2^(53-j)\<close> the doubles are spaced by a power of two that divides \<open>2^-j\<close>,
  so rounding does not cross a multiple of \<open>2^-j\<close>, and such a multiple is a double.\<close>

lemma ulp_divides:
  assumes "0 < x" and "x < 2 ^ (53 - j)" and "j \<le> 53"
  obtains m :: nat where "1 / ulp x = 2 ^ j * 2 ^ m"
proof -
  have "x < 2 powr real (53 - j)"
    using assms(2) by (simp only: powr_realpow zero_less_numeral)
  then have "log 2 x < real (53 - j)"
    using assms(1) by (subst log_less_iff) simp_all
  then have "\<lfloor>log 2 x\<rfloor> < int (53 - j)"
    by (simp add: floor_less_iff)
  then have e: "max \<lfloor>log 2 \<bar>x\<bar>\<rfloor> (- 1022) \<le> 52 - int j"
    using assms by simp
  define m where "m = nat (52 - int j - max \<lfloor>log 2 \<bar>x\<bar>\<rfloor> (- 1022))"
  have mm: "int m = 52 - int j - max \<lfloor>log 2 \<bar>x\<bar>\<rfloor> (- 1022)"
    using e by (simp add: m_def)
  have "1 / ulp x = 2 powr (52 - of_int (max \<lfloor>log 2 \<bar>x\<bar>\<rfloor> (- 1022)))"
    by (simp add: ulp_def powr_minus_divide [symmetric])
  also have "52 - of_int (max \<lfloor>log 2 \<bar>x\<bar>\<rfloor> (- 1022)) = real j + real m"
    using mm by linarith
  also have "2 powr (real j + real m) = 2 ^ j * 2 ^ m"
    by (simp add: powr_add powr_realpow)
  finally show ?thesis by (rule that)
qed

lemma roundDouble_ge:
  assumes "0 < x" and "x < 2 ^ (53 - j)" and "j \<le> 53" and "A * 2 ^ j \<in> \<int>" and "A \<le> x"
  shows "A \<le> roundDouble x"
proof -
  obtain m :: nat where m: "1 / ulp x = 2 ^ j * 2 ^ m"
    using assms(1-3) by (rule ulp_divides)
  obtain n :: int where n: "A * 2 ^ j = of_int n"
    using assms(4) by (auto elim: Ints_cases)
  have u: "0 < ulp x" by (rule ulp_pos)
  have "A / ulp x = A * (1 / ulp x)" by simp
  also have "\<dots> = (A * 2 ^ j) * 2 ^ m" by (simp only: m mult.assoc)
  finally have "A / ulp x = (A * 2 ^ j) * 2 ^ m" .
  then have Au: "A / ulp x = of_int (n * 2 ^ m)"
    using n by simp
  have "A / ulp x \<le> x / ulp x"
    using assms(5) u by (simp add: divide_right_mono)
  then have "n * 2 ^ m \<le> roundHalfEven (x / ulp x)"
    unfolding Au by (rule roundHalfEven_ge)
  then have "of_int (n * 2 ^ m) \<le> (of_int (roundHalfEven (x / ulp x)) :: real)"
    by (simp only: of_int_le_iff)
  then have "ulp x * (A / ulp x) \<le> ulp x * of_int (roundHalfEven (x / ulp x))"
    unfolding Au using u by (simp only: mult_le_cancel_left_pos)
  then show ?thesis
    using u assms(1) by (simp add: roundDouble_def)
qed

lemma roundDouble_le:
  assumes "0 < x" and "x < 2 ^ (53 - j)" and "j \<le> 53" and "B * 2 ^ j \<in> \<int>" and "x \<le> B"
  shows "roundDouble x \<le> B"
proof -
  obtain m :: nat where m: "1 / ulp x = 2 ^ j * 2 ^ m"
    using assms(1-3) by (rule ulp_divides)
  obtain n :: int where n: "B * 2 ^ j = of_int n"
    using assms(4) by (auto elim: Ints_cases)
  have u: "0 < ulp x" by (rule ulp_pos)
  have "B / ulp x = B * (1 / ulp x)" by simp
  also have "\<dots> = (B * 2 ^ j) * 2 ^ m" by (simp only: m mult.assoc)
  finally have "B / ulp x = (B * 2 ^ j) * 2 ^ m" .
  then have Bu: "B / ulp x = of_int (n * 2 ^ m)"
    using n by simp
  have "x / ulp x \<le> B / ulp x"
    using assms(5) u by (simp add: divide_right_mono)
  then have "roundHalfEven (x / ulp x) \<le> n * 2 ^ m"
    unfolding Bu by (rule roundHalfEven_le)
  then have "(of_int (roundHalfEven (x / ulp x)) :: real) \<le> of_int (n * 2 ^ m)"
    by (simp only: of_int_le_iff)
  then have "ulp x * of_int (roundHalfEven (x / ulp x)) \<le> ulp x * (B / ulp x)"
    unfolding Bu using u by (simp only: mult_le_cancel_left_pos)
  then show ?thesis
    using u assms(1) by (simp add: roundDouble_def)
qed

lemma roundDouble_exact:
  assumes "0 \<le> x" and "x < 2 ^ (53 - j)" and "j \<le> 53" and "x * 2 ^ j \<in> \<int>"
  shows "roundDouble x = x"
proof (cases "x = 0")
  case True
  then show ?thesis by (simp add: roundDouble_def)
next
  case False
  with assms(1) have "0 < x" by simp
  then show ?thesis
    using roundDouble_ge [of x j x] roundDouble_le [of x j x] assms by simp
qed

lemma asNumber_exact:
  assumes "0 \<le> x" and "x < 2 ^ (53 - j)" and "j \<le> 53" and "x * 2 ^ j \<in> \<int>"
  shows "asNumber x = Num x"
proof -
  have "x < 2 ^ 53"
    using assms(2) power_increasing [of "53 - j" 53 "2::real"] by simp
  also have "(2::real) ^ 53 < 2 ^ 1024" by simp
  finally have "x < 2 ^ 1024" .
  then show ?thesis
    using assms by (simp add: asNumber_def roundDouble_exact [OF assms])
qed

lemma ulp_binade:
  assumes "2 ^ e \<le> x" and "x < 2 ^ Suc e"
  shows "ulp x = 2 powr (real e - 52)"
proof -
  have x: "0 < x" using assms(1) by (rule less_le_trans [rotated]) simp
  have lo: "2 powr real e \<le> x"
    using assms(1) by (simp only: powr_realpow zero_less_numeral)
  have "x < 2 powr real (Suc e)"
    using assms(2) by (simp only: powr_realpow zero_less_numeral)
  then have hi: "x < 2 powr (real_of_int (int e) + 1)"
    by (simp add: add.commute)
  have "\<lfloor>log 2 x\<rfloor> = int e"
    using lo hi x by (subst floor_log_eq_powr_iff) simp_all
  then show ?thesis
    using x by (simp add: ulp_def)
qed

lemma asNumber_small: "asNumber 0 = Num 0" "asNumber 1 = Num 1"
  using asNumber_exact [of 0 0] asNumber_exact [of 1 0] by simp_all

subsection \<open>\<^verbatim>\<open>randomize\<close>\<close>

lemma draw_plus_one:
  assumes "0 \<le> r" and "r < 1"
  shows "\<exists>s. js_add (Num r) (Num 1) = Num s \<and> 1 \<le> s \<and> s \<le> 2"
proof -
  have pos: "0 < r + 1" using assms by simp
  have lt: "r + 1 < 2 ^ (53 - 0)"
  proof -
    have "r + 1 < 2" using assms by simp
    also have "(2::real) \<le> 2 ^ 53" by simp
    finally show ?thesis by simp
  qed
  have lo: "1 \<le> roundDouble (r + 1)"
    using pos lt by (rule roundDouble_ge) (use assms in simp_all)
  have hi: "roundDouble (r + 1) \<le> 2"
    using pos lt by (rule roundDouble_le) (use assms in simp_all)
  have "asNumber (r + 1) = Num (roundDouble (r + 1))"
    using lo hi by (simp add: asNumber_def Let_def)
  then show ?thesis using lo hi by simp
qed

lemma randomize_tie: "randomize (1 / 2) 1 = Num 2"
proof -
  have a: "js_add (Num (1 / 2)) (Num 1) = Num (3 / 2)"
    using asNumber_exact [of "3 / 2" 1] by simp
  have b: "js_mul (Num 1) (Num (3 / 2)) = Num (3 / 2)"
    using asNumber_exact [of "3 / 2" 1] by simp
  show ?thesis by (simp only: randomize_def a b Math_round.simps) simp
qed

lemma randomize_double_product:
  "randomize (18764998447377 / 2 ^ 51) 300 = Num 303"
proof -
  let ?s = "2270564812132625 / 2 ^ 51 :: real"
  have "asNumber ?s = Num ?s"
    by (rule asNumber_exact [where j = 51]) simp_all
  then have a: "js_add (Num (18764998447377 / 2 ^ 51)) (Num 1) = Num ?s"
    by simp
  have u: "ulp (300 * ?s) = 2 powr (real 8 - 52)"
    by (rule ulp_binade) simp_all
  then have u': "ulp (300 * ?s) = 1 / 2 ^ 44"
    by (simp add: powr_minus_divide powr_realpow [symmetric])
  have f: "\<lfloor>300 * ?s / (1 / 2 ^ 44)\<rfloor> = 5321636278435839"
    by simp
  have h: "roundHalfEven (300 * ?s / (1 / 2 ^ 44)) = 5321636278435840"
    unfolding roundHalfEven_def f Let_def by simp
  have rd: "roundDouble (300 * ?s) = 605 / 2"
    unfolding roundDouble_def u' h by simp
  have b: "js_mul (Num 300) (Num ?s) = Num (605 / 2)"
    unfolding js_mul.simps asNumber_def rd Let_def by simp
  show ?thesis by (simp only: randomize_def a b Math_round.simps) simp
qed

text \<open>
  Claim C7, as stated: \<^verbatim>\<open>randomize(d)\<close> is \<open>\<lfloor>d \<sqdot> (1 + r)\<rfloor>\<close> and lies in \<open>[d, 2d)\<close>. The
  source rounds with \<^verbatim>\<open>Math.round\<close>: for \<open>d = 1\<close> and the draw \<open>r = 0.5\<close> the product
  is the double \<open>1.5\<close> and the result is \<open>2\<close>, which is neither \<open>\<lfloor>1.5\<rfloor> = 1\<close> nor below
  \<open>2d\<close>.
\<close>

theorem randomize_counterexample:
  "randomize (1 / 2) 1 \<noteq> Num (of_int \<lfloor>(1::real) * (1 + 1 / 2)\<rfloor>)
   \<and> \<not> (\<exists>v. randomize (1 / 2) 1 = Num v \<and> 1 \<le> v \<and> v < 2 * 1)"
  by (simp add: randomize_tie)

text \<open>
  Claim C7, amended. For every whole number \<open>d\<close> with \<open>0 \<le> d < 2^52\<close> and every draw
  \<open>r\<close> in \<open>[0, 1)\<close>, \<^verbatim>\<open>randomize(d)\<close> is \<^verbatim>\<open>Math.round\<close> of the product \<open>d \<sqdot> (r + 1)\<close>
  as computed in doubles, and it is a whole number in the closed interval \<open>[d, 2d]\<close>.
  (The product is rounded to a double before \<^verbatim>\<open>Math.round\<close> sees it, so the result can
  differ from the exact \<open>d \<sqdot> (1 + r)\<close> rounded: \<open>randomize_double_product\<close>.)
\<close>

theorem randomize_range:
  assumes "0 \<le> r" and "r < 1" and "d \<in> \<int>" and "0 \<le> d" and "d < 2 ^ 52"
  shows "randomize r d = Math_round (js_mul (Num d) (js_add (Num r) (Num 1)))
    \<and> (\<exists>n::int. randomize r d = Num (of_int n) \<and> d \<le> of_int n \<and> of_int n \<le> 2 * d)"
proof -
  obtain s where s: "js_add (Num r) (Num 1) = Num s" "1 \<le> s" "s \<le> 2"
    using draw_plus_one [OF assms(1,2)] by blast
  obtain m :: int where m: "d = of_int m" using assms(3) by (auto elim: Ints_cases)
  have lo: "d \<le> d * s" using assms(4) s(2) by (simp add: mult_le_cancel_left1)
  have "d * s \<le> d * 2" using assms(4) s(3) by (intro mult_left_mono)
  then have hi: "d * s \<le> 2 * d" by simp
  have q: "\<exists>q. asNumber (d * s) = Num q \<and> d \<le> q \<and> q \<le> 2 * d"
  proof (cases "d = 0")
    case True
    then show ?thesis using asNumber_exact [of 0 0] by simp
  next
    case False
    then have pos: "0 < d * s" using assms(4) s(2) by simp
    have lt: "d * s < 2 ^ (53 - 0)"
    proof -
      have "d * s \<le> 2 * d" by (rule hi)
      also have "\<dots> < 2 * 2 ^ 52" using assms(5) by simp
      finally show ?thesis by simp
    qed
    have a: "d \<le> roundDouble (d * s)"
      using pos lt by (rule roundDouble_ge) (use m lo in simp_all)
    have b: "roundDouble (d * s) \<le> 2 * d"
      using pos lt by (rule roundDouble_le) (use m hi in simp_all)
    have "2 * d < 2 ^ 1024"
    proof -
      have "2 * d < 2 * 2 ^ 52" using assms(5) by simp
      also have "\<dots> < (2::real) ^ 1024" by simp
      finally show ?thesis .
    qed
    then have "asNumber (d * s) = Num (roundDouble (d * s))"
      using a b assms(4) by (simp add: asNumber_def Let_def)
    then show ?thesis using a b by simp
  qed
  then obtain q where q: "asNumber (d * s) = Num q" "d \<le> q" "q \<le> 2 * d" by blast
  have r: "randomize r d = Num (of_int \<lfloor>q + 1 / 2\<rfloor>)"
    by (simp only: randomize_def s(1) js_mul.simps q(1) Math_round.simps)
  have "of_int m \<le> q + 1 / 2" using q(2) m by linarith
  then have a: "m \<le> \<lfloor>q + 1 / 2\<rfloor>" by (simp add: le_floor_iff)
  have "q + 1 / 2 < of_int (2 * m + 1)" using q(3) m by simp
  then have "\<lfloor>q + 1 / 2\<rfloor> < 2 * m + 1" by (simp only: floor_less_iff)
  then have b: "\<lfloor>q + 1 / 2\<rfloor> \<le> 2 * m" by simp
  have "d \<le> of_int \<lfloor>q + 1 / 2\<rfloor> \<and> of_int \<lfloor>q + 1 / 2\<rfloor> \<le> 2 * d"
    using a b m by (metis of_int_le_iff of_int_mult of_int_numeral)
  with r show ?thesis by (auto simp: randomize_def)
qed

theorem randomize_range_witness:
  "(0::real) \<le> 18764998447377 / 2 ^ 51 \<and> (18764998447377 / 2 ^ 51 :: real) < 1
   \<and> (300::real) \<in> \<int> \<and> (0::real) \<le> 300 \<and> (300::real) < 2 ^ 52
   \<and> randomize (18764998447377 / 2 ^ 51) 300 = Num 303
   \<and> (300::real) \<le> 303 \<and> (303::real) \<le> 2 * 300"
proof -
  have h: "(0::real) \<le> 18764998447377 / 2 ^ 51" "(18764998447377 / 2 ^ 51 :: real) < 1"
    "(300::real) \<in> \<int>" "(0::real) \<le> 300" "(300::real) < 2 ^ 52"
    by simp_all
  from randomize_range [OF h] obtain n :: int
    where n: "randomize (18764998447377 / 2 ^ 51) 300 = Num (of_int n)"
      "(300::real) \<le> of_int n" "of_int n \<le> (2 * 300 :: real)"
    by blast
  from n(1) [unfolded randomize_double_product] have "of_int n = (303::real)" by simp
  with n(2,3) have b: "(300::real) \<le> 303" "(303::real) \<le> 2 * 300" by simp_all
  from h b randomize_double_product show ?thesis by (intro conjI)
qed

subsection \<open>The BackoffManager\<close>

text \<open>Bounds on logarithms from powers of numbers close to \<open>1\<close>.\<close>

lemma ln_lower:
  fixes a x :: real
  assumes "1 < a" and "a ^ n \<le> x"
  shows "real n * (1 - 1 / a) \<le> ln x"
proof -
  have a: "0 < a" using assms(1) by simp
  have "ln (1 / a) \<le> 1 / a - 1"
    using a by (intro ln_le_minus_one) simp
  then have "1 - 1 / a \<le> ln a"
    using a by (simp add: ln_div)
  then have "real n * (1 - 1 / a) \<le> real n * ln a"
    by (intro mult_left_mono) simp_all
  also have "\<dots> = ln (a ^ n)"
    by (simp add: ln_realpow)
  also have "\<dots> \<le> ln x"
    using a assms(2) by (subst ln_le_cancel_iff) (auto intro: less_le_trans [of 0 "a ^ n" x])
  finally show ?thesis .
qed

lemma ln_upper:
  fixes a x :: real
  assumes "0 < x" and "0 < a" and "x \<le> a ^ n"
  shows "ln x \<le> real n * (a - 1)"
proof -
  have "ln x \<le> ln (a ^ n)"
    using assms by (subst ln_le_cancel_iff) simp_all
  also have "\<dots> = real n * ln a"
    by (simp add: ln_realpow)
  also have "\<dots> \<le> real n * (a - 1)"
    using assms(2) by (intro mult_left_mono ln_le_minus_one) simp_all
  finally show ?thesis .
qed

lemma ln_three_halves: "51 / 128 \<le> ln (3 / 2 :: real)" "ln (3 / 2 :: real) \<le> 105 / 256"
proof -
  have "real 16 * (1 - 1 / (2048 / 1997)) \<le> ln (3 / 2 :: real)"
    by (rule ln_lower) (simp_all add: power_divide)
  then show "51 / 128 \<le> ln (3 / 2 :: real)" by simp
  have "ln (3 / 2 :: real) \<le> real 64 * (16489 / 16384 - 1)"
    by (rule ln_upper) (simp_all add: power_divide)
  then show "ln (3 / 2 :: real) \<le> 105 / 256" by simp
qed

lemma ln_defaults_ratio: "23 / 8 \<le> ln (75 / 4 :: real)" "ln (75 / 4 :: real) \<le> 95 / 32"
proof -
  have "real 128 * (1 - 1 / (1024 / 1001)) \<le> ln (75 / 4 :: real)"
    by (rule ln_lower) (simp_all add: power_divide)
  then show "23 / 8 \<le> ln (75 / 4 :: real)" by simp
  have "ln (75 / 4 :: real) \<le> real 128 * (4191 / 4096 - 1)"
    by (rule ln_upper) (simp_all add: power_divide)
  then show "ln (75 / 4 :: real) \<le> 95 / 32" by simp
qed

lemma ln_nine_eighths: "1 / 16 \<le> ln (9 / 8 :: real)" "ln (9 / 8 :: real) \<le> 1 / 8"
proof -
  have "real 1 * (1 - 1 / (9 / 8)) \<le> ln (9 / 8 :: real)"
    by (rule ln_lower) simp_all
  then show "1 / 16 \<le> ln (9 / 8 :: real)" by simp
  have "ln (9 / 8 :: real) \<le> real 1 * (9 / 8 - 1)"
    by (rule ln_upper) simp_all
  then show "ln (9 / 8 :: real) \<le> 1 / 8" by simp
qed

lemma roundDouble_between:
  assumes "0 < A" and "A \<le> x" and "x \<le> B" and "B < 2 ^ (53 - j)" and "j \<le> 53"
    and "A * 2 ^ j \<in> \<int>" and "B * 2 ^ j \<in> \<int>"
  shows "A \<le> roundDouble x \<and> roundDouble x \<le> B"
proof -
  have pos: "0 < x" using assms(1,2) by linarith
  have lt: "x < 2 ^ (53 - j)" using assms(3,4) by linarith
  show ?thesis
    using roundDouble_ge [OF pos lt assms(5,6,2)] roundDouble_le [OF pos lt assms(5,7,3)]
    by simp
qed

lemma log_rounded:
  "51 / 128 \<le> roundDouble (ln (3 / 2)) \<and> roundDouble (ln (3 / 2)) \<le> 105 / 256"
  "23 / 8 \<le> roundDouble (ln (75 / 4)) \<and> roundDouble (ln (75 / 4)) \<le> 95 / 32"
  "1 / 16 \<le> roundDouble (ln (9 / 8)) \<and> roundDouble (ln (9 / 8)) \<le> 1 / 8"
  using ln_three_halves ln_defaults_ratio ln_nine_eighths
  by (intro roundDouble_between [where j = 8]; simp)+

lemma attempt_duration: "attempt (snd (duration P r b)) = Suc (attempt b)"
  by (simp add: duration_def clearTimeout_def Let_def)

lemma params_duration:
  "min_delay (snd (duration P r b)) = min_delay b"
  "max_delay (snd (duration P r b)) = max_delay b"
  "factor (snd (duration P r b)) = factor b"
  "jitter (snd (duration P r b)) = jitter b"
  by (simp_all add: duration_def clearTimeout_def Let_def)

lemma duration_steady:
  "jitter b = 0 \<Longrightarrow> fst (duration P r b) = steadyDelay P b (attempt b)"
  by (simp add: duration_def clearTimeout_def Let_def steadyDelay_def threshold_def)

lemma durations_steady:
  assumes "jitter b = 0"
  shows "durations P rs n b = map (\<lambda>k. steadyDelay P b (attempt b + k)) [0..<n]"
  using assms
proof (induction n arbitrary: b rs)
  case 0
  show ?case by simp
next
  case (Suc n)
  obtain d b' where db: "duration P (rs 0) b = (d, b')" by (cases "duration P (rs 0) b")
  have d: "d = steadyDelay P b (attempt b)"
    using duration_steady [OF Suc.prems, of P "rs 0"] db by simp
  have b': "min_delay b' = min_delay b" "max_delay b' = max_delay b" "factor b' = factor b"
    "jitter b' = jitter b" "attempt b' = Suc (attempt b)"
    using params_duration [of P "rs 0" b] attempt_duration [of P "rs 0" b] db by simp_all
  have sv: "steadyDelay P b' = steadyDelay P b"
    by (rule ext) (simp add: steadyDelay_def threshold_def b')
  have "durations P (\<lambda>i. rs (Suc i)) n b' = map (\<lambda>k. steadyDelay P b' (attempt b' + k)) [0..<n]"
    using Suc.prems by (intro Suc.IH) (simp_all add: b')
  then have "durations P rs (Suc n) b
      = steadyDelay P b (attempt b) # map (\<lambda>k. steadyDelay P b (attempt b + Suc k)) [0..<n]"
    by (simp add: db d sv b')
  also have "\<dots> = map (\<lambda>k. steadyDelay P b (attempt b + k)) [0..<Suc n]"
    by (simp add: upt_rec [of 0 "Suc n"] map_Suc_upt [symmetric] del: upt_Suc)
  finally show ?case .
qed

lemma steady_params:
  "min_delay steadyBackoffManager = 800" "max_delay steadyBackoffManager = 15000"
  "factor steadyBackoffManager = 3 / 2" "jitter steadyBackoffManager = 0"
  "attempt steadyBackoffManager = 0"
  by (simp_all add: steadyBackoffManager_def newBackoffManager_def)

lemma level_params:
  "min_delay levelBackoffManager = 5 / 2" "max_delay levelBackoffManager = 5 / 2"
  "factor levelBackoffManager = 9 / 8" "jitter levelBackoffManager = 0"
  "attempt levelBackoffManager = 0"
  by (simp_all add: levelBackoffManager_def newBackoffManager_def)

lemma threshold_default:
  assumes "accurateAtDefaults P"
  shows "threshold P steadyBackoffManager = Num 7"
proof -
  let ?l1 = "logOf P (75 / 4)" and ?l2 = "logOf P (3 / 2)"
  have l1: "23 / 8 \<le> ?l1" "?l1 \<le> 95 / 32" and l2: "51 / 128 \<le> ?l2" "?l2 \<le> 105 / 256"
    using assms by (simp_all add: accurateAtDefaults_def)
  have q1: "js_div (Num 15000) (Num 800) = Num (75 / 4)"
    using asNumber_exact [of "75 / 4" 2] by simp
  have pos2: "0 < ?l2" using l2(1) by linarith
  have lo: "7 \<le> ?l1 / ?l2"
  proof -
    have "7 \<le> (23 / 8) / (105 / 256 :: real)" by simp
    also have "\<dots> \<le> ?l1 / ?l2"
      using l1(1) l2(2) pos2 by (intro frac_le) simp_all
    finally show ?thesis .
  qed
  have hi: "?l1 / ?l2 \<le> 15 / 2"
  proof -
    have "?l1 / ?l2 \<le> (95 / 32) / (51 / 128)"
      using l1 l2 by (intro frac_le) simp_all
    also have "\<dots> \<le> (15 / 2 :: real)" by simp
    finally show ?thesis .
  qed
  have pos: "0 < ?l1 / ?l2" using lo by linarith
  have lt: "?l1 / ?l2 < 2 ^ (53 - 1)"
  proof -
    have "?l1 / ?l2 \<le> 15 / 2" by (rule hi)
    also have "\<dots> < (2::real) ^ 52" by simp
    finally show ?thesis by simp
  qed
  have a: "7 \<le> roundDouble (?l1 / ?l2)"
    using pos lt by (rule roundDouble_ge) (use lo in simp_all)
  have b: "roundDouble (?l1 / ?l2) \<le> 15 / 2"
    using pos lt by (rule roundDouble_le) (use hi in simp_all)
  have n: "asNumber (?l1 / ?l2) = Num (roundDouble (?l1 / ?l2))"
    using a b by (simp add: asNumber_def Let_def)
  have f: "\<lfloor>roundDouble (?l1 / ?l2)\<rfloor> = 7"
    using a b by (simp add: floor_eq_iff)
  have "threshold P steadyBackoffManager
      = Math_floor (js_div (Math_log P (Num (75 / 4))) (Math_log P (Num (3 / 2))))"
    by (simp only: threshold_def steady_params q1)
  also have "\<dots> = Math_floor (js_div (Num ?l1) (Num ?l2))"
    by simp
  also have "\<dots> = Math_floor (Num (roundDouble (?l1 / ?l2)))"
    using pos2 n by simp
  also have "\<dots> = Num 7"
    using f by simp
  finally show ?thesis .
qed

lemma product_default:
  "k \<le> 7 \<Longrightarrow> asNumber (800 * (3 / 2) ^ k) = Num (800 * (3 / 2) ^ k)"
proof -
  assume "k \<le> 7"
  then have "k \<in> {0, 1, 2, 3, 4, 5, 6, 7}" by auto
  then show ?thesis
    by (elim insertE emptyE; hypsubst; intro asNumber_exact [where j = 2])
       (simp_all add: field_simps)
qed

lemma durations_default:
  assumes "accurateAtDefaults P"
  shows "durations P rs 10 steadyBackoffManager
     = map Num [800, 1200, 1800, 2700, 4050, 6075, 9112, 13668, 15000, 15000]"
proof -
  have t: "threshold P steadyBackoffManager = Num 7" using assms by (rule threshold_default)
  have p: "Math_pow P (3 / 2) k = Num ((3 / 2) ^ k)" if "k \<le> 7" for k
    using that assms by (cases "k = 0") (simp_all add: Math_pow_def accurateAtDefaults_def)
  have v: "steadyDelay P steadyBackoffManager k
      = Math_min (Math_floor (Num (800 * (3 / 2) ^ k))) (Num 15000)" if "k \<le> 7" for k
    using that by (simp add: steadyDelay_def t steady_params p product_default)
  have w: "steadyDelay P steadyBackoffManager k = Num 15000" if "7 < k" for k
    using that by (simp add: steadyDelay_def t steady_params)
  have "durations P rs 10 steadyBackoffManager
     = map (\<lambda>k. steadyDelay P steadyBackoffManager k) [0..<10]"
    using durations_steady [of steadyBackoffManager P rs 10] by (simp add: steady_params)
  also have "\<dots> = map Num [800, 1200, 1800, 2700, 4050, 6075, 9112, 13668, 15000, 15000]"
    by (simp add: upt_rec v w field_simps)
  finally show ?thesis .
qed

lemma reference_accurate: "accurateAtDefaults referencePlatform"
proof -
  have "powOf referencePlatform (3 / 2) k = Num ((3 / 2) ^ k)" if "k \<in> {1..7}" for k
  proof -
    from that have "k \<in> {1, 2, 3, 4, 5, 6, 7}" by auto
    then have "asNumber ((3 / 2) ^ k) = Num ((3 / 2) ^ k)"
      by (elim insertE emptyE; hypsubst; intro asNumber_exact [where j = 7])
         (simp_all add: field_simps)
    then show ?thesis by (simp add: referencePlatform_def)
  qed
  then show ?thesis
    using log_rounded(1,2) by (simp add: accurateAtDefaults_def referencePlatform_def)
qed

lemma threshold_level: "threshold referencePlatform levelBackoffManager = Num 0"
proof -
  have "logOf referencePlatform (9 / 8) \<noteq> 0"
    using log_rounded(3) by (simp add: referencePlatform_def)
  then show ?thesis
    by (simp add: threshold_def level_params asNumber_small)
qed

text \<open>
  Claim C5, as stated: with the jitter off and no reset, the \<open>k\<close>-th call of
  \<^verbatim>\<open>duration()\<close> returns \<open>min(\<lfloor>min \<sqdot> factor^k\<rfloor>, max)\<close>. It fails when \<^verbatim>\<open>max\<close> is not
  a whole number: with \<open>min = max = 2.5\<close> and \<open>factor = 1.125\<close> the threshold is
  \<open>\<lfloor>log(1)/log(1.125)\<rfloor> = 0\<close>, so the second call is past it and returns \<open>max = 2.5\<close>,
  while \<open>min(\<lfloor>2.8125\<rfloor>, 2.5) = 2\<close>.
\<close>

theorem backoff_counterexample:
  "durations referencePlatform (\<lambda>i. 0) 2 levelBackoffManager ! 1
     \<noteq> Num (min (of_int \<lfloor>min_delay levelBackoffManager * factor levelBackoffManager ^ 1\<rfloor>)
               (max_delay levelBackoffManager))"
proof -
  have "durations referencePlatform (\<lambda>i. 0) 2 levelBackoffManager
     = map (\<lambda>k. steadyDelay referencePlatform levelBackoffManager k) [0..<2]"
    using durations_steady [of levelBackoffManager referencePlatform "\<lambda>i. 0" 2]
    by (simp add: level_params)
  then have "durations referencePlatform (\<lambda>i. 0) 2 levelBackoffManager ! 1 = Num (5 / 2)"
    by (simp add: upt_rec steadyDelay_def threshold_level level_params)
  moreover have "min (of_int \<lfloor>min_delay levelBackoffManager
        * factor levelBackoffManager ^ 1\<rfloor>) (max_delay levelBackoffManager) = (2::real)"
    by (simp add: level_params)
  ultimately show ?thesis by simp
qed

text \<open>
  Claim C5, amended. For a BackoffManager with the jitter off and no reset in between,
  the \<open>k\<close>-th call of \<^verbatim>\<open>duration()\<close> (from \<open>k = 0\<close>) returns \<open>max\<close> itself when \<open>k\<close>
  exceeds the threshold \<^verbatim>\<open>Math.floor(Math.log(max / min) / Math.log(factor))\<close> as the
  code computes it in doubles, and \<^verbatim>\<open>Math.min(Math.floor(min * Math.pow(factor, k)), max)\<close>
  otherwise; so for every \<open>k\<close> of at least the threshold plus one the value is exactly
  \<open>max\<close>. With the defaults 800, 15000, 1.5 the sequence begins 800, 1200, 1800, 2700,
  4050, 6075, 9112, 13668, 15000, 15000 on every engine whose \<^verbatim>\<open>Math.log\<close> and
  \<^verbatim>\<open>Math.pow\<close> are as accurate as \<open>accurateAtDefaults\<close> asks, a correctly rounding one
  among them.
\<close>

theorem backoff_sequence:
  assumes "jitter b = 0" and "attempt b = 0" and "k < n"
  shows "durations P rs n b ! k
       = (if js_gt (Num (real k)) (threshold P b) then Num (max_delay b)
          else Math_min (Math_floor (js_mul (Num (min_delay b)) (Math_pow P (factor b) k)))
                 (Num (max_delay b)))
    \<and> (\<forall>t. threshold P b = Num t \<and> t + 1 \<le> real k \<longrightarrow>
          durations P rs n b ! k = Num (max_delay b))
    \<and> (accurateAtDefaults P \<longrightarrow>
          durations P rs 10 steadyBackoffManager
            = map Num [800, 1200, 1800, 2700, 4050, 6075, 9112, 13668, 15000, 15000])"
proof -
  have v: "durations P rs n b ! k = steadyDelay P b k"
    using assms durations_steady [of b P rs n] by simp
  have beyond: "steadyDelay P b k = Num (max_delay b)"
    if "threshold P b = Num t" and "t + 1 \<le> real k" for t
    using that by (simp add: steadyDelay_def)
  show ?thesis
    using v beyond durations_default by (auto simp: steadyDelay_def)
qed

theorem backoff_sequence_witness:
  "jitter steadyBackoffManager = 0 \<and> attempt steadyBackoffManager = 0 \<and> (6::nat) < 10
   \<and> accurateAtDefaults referencePlatform
   \<and> threshold referencePlatform steadyBackoffManager = Num 7
   \<and> durations referencePlatform (\<lambda>i. 0) 10 steadyBackoffManager ! 6 = Num 9112
   \<and> durations referencePlatform (\<lambda>i. 0) 10 steadyBackoffManager ! 8 = Num 15000"
proof -
  have p: "jitter steadyBackoffManager = 0" "attempt steadyBackoffManager = 0" "(6::nat) < 10"
    by (simp_all add: steady_params)
  have a: "accurateAtDefaults referencePlatform" by (rule reference_accurate)
  have t: "threshold referencePlatform steadyBackoffManager = Num 7"
    using a by (rule threshold_default)
  from backoff_sequence [OF p, of referencePlatform "\<lambda>i. 0"] a
  have "durations referencePlatform (\<lambda>i. 0) 10 steadyBackoffManager
      = map Num [800, 1200, 1800, 2700, 4050, 6075, 9112, 13668, 15000, 15000]"
    by blast
  then show ?thesis using p a t by simp
qed


section \<open>Properties of the Reflector and the Informer\<close>

text \<open>Logging and \<^verbatim>\<open>stop()\<close> leave the store and the cursor alone.\<close>

lemma logger_fields [simp]:
  "listWatcher (logger lvl msg r) = listWatcher r"
  "store (logger lvl msg r) = store r"
  "period (logger lvl msg r) = period r"
  "minWatchTimeout (logger lvl msg r) = minWatchTimeout r"
  "isLastSyncResourceVersionUnavailable (logger lvl msg r) = isLastSyncResourceVersionUnavailable r"
  "lastSyncResourceVersion (logger lvl msg r) = lastSyncResourceVersion r"
  "paginatedResult (logger lvl msg r) = paginatedResult r"
  "stopRequested (logger lvl msg r) = stopRequested r"
  "backoffManager (logger lvl msg r) = backoffManager r"
  "logged (logger lvl msg r) = logged r @ [(lvl, msg)]"
  by (simp_all add: logger_def)

lemma logger_derived [simp]:
  "reflector_apiVersion (logger lvl msg r) = reflector_apiVersion r"
  "reflector_kind (logger lvl msg r) = reflector_kind r"
  "relistResourceVersion (logger lvl msg r) = relistResourceVersion r"
  by (simp_all add: reflector_apiVersion_def reflector_kind_def relistResourceVersion_def
        split: option.splits)

lemma stop_fields [simp]:
  "store (stop r) = store r"
  "isLastSyncResourceVersionUnavailable (stop r) = isLastSyncResourceVersionUnavailable r"
  "lastSyncResourceVersion (stop r) = lastSyncResourceVersion r"
  "paginatedResult (stop r) = paginatedResult r"
  "stopRequested (stop r) = True"
  "logged (stop r) = logged r"
  by (simp_all add: stop_def Let_def split: option.splits)

lemma interrupted_fields [simp]:
  "store (interrupted c r) = store r"
  "isLastSyncResourceVersionUnavailable (interrupted c r) = isLastSyncResourceVersionUnavailable r"
  "lastSyncResourceVersion (interrupted c r) = lastSyncResourceVersion r"
  "paginatedResult (interrupted c r) = paginatedResult r"
  "stopRequested (interrupted c r) = (c \<or> stopRequested r)"
  "logged (interrupted c r) = logged r"
  "interrupted False r = r"
  by (simp_all add: interrupted_def)

text \<open>
  Claim C3. For every Reflector state the relist resource version, with which the next
  list is asked (\<open>listOptionsOf\<close>), is \<^verbatim>\<open>""\<close> when
  \<^verbatim>\<open>isLastSyncResourceVersionUnavailable\<close> is set, otherwise \<^verbatim>\<open>"0"\<close> when
  \<^verbatim>\<open>lastSyncResourceVersion\<close> is the empty string, and otherwise
  \<^verbatim>\<open>lastSyncResourceVersion\<close> itself.
\<close>

theorem relist_rules:
  "(isLastSyncResourceVersionUnavailable r \<longrightarrow> relistResourceVersion r = '''')
   \<and> (\<not> isLastSyncResourceVersionUnavailable r \<and> lastSyncResourceVersion r = ''''
        \<longrightarrow> relistResourceVersion r = ''0'')
   \<and> (\<not> isLastSyncResourceVersionUnavailable r \<and> lastSyncResourceVersion r \<noteq> ''''
        \<longrightarrow> relistResourceVersion r = lastSyncResourceVersion r)
   \<and> list_resourceVersion (listOptionsOf r) = relistResourceVersion r"
  by (simp add: relistResourceVersion_def listOptionsOf_def)

theorem relist_rules_witness:
  "\<not> isLastSyncResourceVersionUnavailable reflectorX \<and> lastSyncResourceVersion reflectorX = ''''
   \<and> relistResourceVersion reflectorX = ''0''
   \<and> relistResourceVersion (reflectorX\<lparr>lastSyncResourceVersion := ''51''\<rparr>) = ''51''
   \<and> relistResourceVersion (reflectorX\<lparr>lastSyncResourceVersion := ''51'',
         isLastSyncResourceVersionUnavailable := True\<rparr>) = ''''"
  using relist_rules [of reflectorX]
    relist_rules [of "reflectorX\<lparr>lastSyncResourceVersion := ''51''\<rparr>"]
    relist_rules [of "reflectorX\<lparr>lastSyncResourceVersion := ''51'',
         isLastSyncResourceVersionUnavailable := True\<rparr>"]
  by (simp add: reflectorX_def newReflector_def)

text \<open>
  Claim C6. A watch event whose object does not have the \<^verbatim>\<open>apiVersion\<close> and \<^verbatim>\<open>kind\<close>
  the Reflector expects leaves the state behind the store callbacks and
  \<^verbatim>\<open>lastSyncResourceVersion\<close> as they were, whatever resource version the object
  carries: unless its type is \<^verbatim>\<open>ERROR\<close> (which is thrown before the object is looked
  at) the handler logs an error and goes on with the rest of the stream as if the event
  had not come. With the callbacks of the Informer the Store is unchanged and no event
  is emitted.
\<close>

theorem mismatched_event_skipped:
  assumes "apiVersion object \<noteq> reflector_apiVersion r \<or> kind object \<noteq> reflector_kind r"
  shows "store (snd (watchEvents sink [Event type object] r)) = store r
    \<and> lastSyncResourceVersion (snd (watchEvents sink [Event type object] r))
        = lastSyncResourceVersion r
    \<and> (type \<noteq> ''ERROR'' \<longrightarrow>
         watchEvents sink (Event type object # rest) r
           = watchEvents sink rest
               (logger LogError ''Expected %s, but watch event object had %s'' r))
    \<and> (type = ''ERROR'' \<longrightarrow>
         watchEvents sink (Event type object # rest) r = (Some (StatusError object), r))
    \<and> (apiVersion object \<noteq> reflector_apiVersion ri \<or> kind object \<noteq> reflector_kind ri \<longrightarrow>
         kStore (store (snd (watchEvents informerSink [Event type object] ri)))
           = kStore (store ri)
         \<and> emitted (store (snd (watchEvents informerSink [Event type object] ri)))
           = emitted (store ri))"
  using assms by auto

theorem mismatched_event_skipped_witness:
  "kind objY \<noteq> reflector_kind reflectorX
   \<and> fst (watchEvents informerSink [Event ''ADDED'' objY] reflectorX) = None
   \<and> entries (kStore (store (snd (watchEvents informerSink [Event ''ADDED'' objY] reflectorX)))) = []
   \<and> emitted (store (snd (watchEvents informerSink [Event ''ADDED'' objY] reflectorX))) = []
   \<and> lastSyncResourceVersion (snd (watchEvents informerSink [Event ''ADDED'' objY] reflectorX)) = ''''"
proof -
  have k: "kind objY \<noteq> reflector_kind reflectorX"
    by (simp add: objY_def mkObject_def reflector_kind_def reflectorX_def newReflector_def
          watcherX_def)
  then have h: "apiVersion objY \<noteq> reflector_apiVersion reflectorX
      \<or> kind objY \<noteq> reflector_kind reflectorX" by simp
  have n: "fst (watchEvents informerSink [Event ''ADDED'' objY] reflectorX) = None"
    using k by simp
  have s: "store reflectorX = \<lparr>kStore = newStore uidKey, emitted = []\<rparr>"
      "lastSyncResourceVersion reflectorX = ''''"
    by (simp_all add: reflectorX_def newReflector_def)
  from mismatched_event_skipped [OF h, of informerSink "''ADDED''" "[]" reflectorX] k n s
  show ?thesis by (simp add: newStore_def)
qed

lemma dispatch_mutations:
  "dispatch sink ''ADDED'' object r = r\<lparr>store := sink_add sink object (store r)\<rparr>"
  "dispatch sink ''MODIFIED'' object r = r\<lparr>store := sink_update sink object (store r)\<rparr>"
  "dispatch sink ''DELETED'' object r = r\<lparr>store := sink_delete sink object (store r)\<rparr>"
  "dispatch sink ''BOOKMARK'' object r = r"
  by (simp_all add: dispatch_def)

lemma update_store_derived [simp]:
  "reflector_apiVersion (r\<lparr>store := st\<rparr>) = reflector_apiVersion r"
  "reflector_kind (r\<lparr>store := st\<rparr>) = reflector_kind r"
  by (simp_all add: reflector_apiVersion_def reflector_kind_def split: option.splits)

lemma informerSink_callbacks:
  "sink_replace informerSink = informer_replace" "sink_add informerSink = informer_add"
  "sink_update informerSink = informer_update" "sink_delete informerSink = informer_delete"
  "sink_setRefreshing informerSink = None"
  by (simp_all add: informerSink_def)

lemma reflectorX_fields:
  "store reflectorX = \<lparr>kStore = newStore uidKey, emitted = []\<rparr>"
  "lastSyncResourceVersion reflectorX = ''''"
  "isLastSyncResourceVersionUnavailable reflectorX = False"
  "paginatedResult reflectorX = False"
  "stopRequested reflectorX = False"
  "logged reflectorX = []"
  "reflector_apiVersion reflectorX = Some ''v1''"
  "reflector_kind reflectorX = Some ''X''"
  by (simp_all add: reflectorX_def newReflector_def reflector_apiVersion_def
        reflector_kind_def watcherX_def)

lemma mkObject_fields:
  "apiVersion (mkObject av k u rv p) = Some av" "kind (mkObject av k u rv p) = Some k"
  "eventResourceVersion (mkObject av k u rv p) = rv"
  by (simp_all add: mkObject_def eventResourceVersion_def)

text \<open>
  Claim C9. For every \<^verbatim>\<open>ADDED\<close>, \<^verbatim>\<open>MODIFIED\<close> or \<^verbatim>\<open>DELETED\<close> event of the expected
  type whose object has no \<^verbatim>\<open>metadata.resourceVersion\<close> (or an empty one), the handler
  applies the matching store callback (\<^verbatim>\<open>add\<close>, \<^verbatim>\<open>update\<close>, \<^verbatim>\<open>delete\<close>), leaves
  \<^verbatim>\<open>lastSyncResourceVersion\<close> as it was, logs an error and goes on with the rest of the
  stream without throwing.
\<close>

theorem event_without_resourceVersion:
  assumes "apiVersion object = reflector_apiVersion r" and "kind object = reflector_kind r"
    and "\<not> truthy (eventResourceVersion object)"
    and "type = ''ADDED'' \<or> type = ''MODIFIED'' \<or> type = ''DELETED''"
  shows "watchEvents sink (Event type object # rest) r
       = watchEvents sink rest
           (logger LogError ''Received event object without resource version for watch %s''
              (r\<lparr>store := mutation sink type object (store r)\<rparr>))
    \<and> fst (watchEvents sink [Event type object] r) = None
    \<and> store (snd (watchEvents sink [Event type object] r)) = mutation sink type object (store r)
    \<and> lastSyncResourceVersion (snd (watchEvents sink [Event type object] r))
        = lastSyncResourceVersion r
    \<and> logged (snd (watchEvents sink [Event type object] r))
        = logged r @ [(LogError, ''Received event object without resource version for watch %s'')]"
proof -
  let ?msg = "''Received event object without resource version for watch %s''"
  have ne: "type \<noteq> ''ERROR''" using assms(4) by auto
  have d: "dispatch sink type object r = r\<lparr>store := mutation sink type object (store r)\<rparr>"
    using assms(4) by (auto simp: mutation_def dispatch_def)
  have step: "watchEvents sink (Event type object # rest') r
       = watchEvents sink rest' (logger LogError ?msg (r\<lparr>store := mutation sink type object (store r)\<rparr>))"
    for rest'
    by (simp only: watchEvents.simps ne assms(1,2,3) d Let_def if_False simp_thms)
  show ?thesis
    unfolding step by simp
qed

theorem event_without_resourceVersion_witness:
  "apiVersion objNoVersion = reflector_apiVersion reflectorX
   \<and> kind objNoVersion = reflector_kind reflectorX
   \<and> \<not> truthy (eventResourceVersion objNoVersion)
   \<and> content (kStore (store (snd (watchEvents informerSink [Event ''ADDED'' objNoVersion]
         reflectorX)))) (Some ''d'') = Some objNoVersion
   \<and> map eventName (emitted (store (snd (watchEvents informerSink
         [Event ''ADDED'' objNoVersion] reflectorX)))) = [''ADD'']
   \<and> lastSyncResourceVersion (snd (watchEvents informerSink [Event ''ADDED'' objNoVersion]
         reflectorX)) = ''''"
proof -
  have h: "apiVersion objNoVersion = reflector_apiVersion reflectorX"
    "kind objNoVersion = reflector_kind reflectorX"
    "\<not> truthy (eventResourceVersion objNoVersion)"
    "''ADDED'' = ''ADDED'' \<or> ''ADDED'' = ''MODIFIED'' \<or> ''ADDED'' = ''DELETED''"
    by (simp_all add: objNoVersion_def mkObject_fields reflectorX_fields truthy_def)
  have m: "mutation informerSink ''ADDED'' objNoVersion (store reflectorX)
      = informer_add objNoVersion \<lparr>kStore = newStore uidKey, emitted = []\<rparr>"
    by (simp add: mutation_def informerSink_callbacks reflectorX_fields)
  have c: "content (kStore (informer_add objNoVersion
        \<lparr>kStore = newStore uidKey, emitted = []\<rparr>)) (Some ''d'') = Some objNoVersion"
    "map eventName (emitted (informer_add objNoVersion
        \<lparr>kStore = newStore uidKey, emitted = []\<rparr>)) = [''ADD'']"
    by (simp_all add: informer_add_def emit_def store_eval objNoVersion_def uidKey_mkObject)
  from event_without_resourceVersion [OF h, of informerSink "[]"] h m c
  show ?thesis by (simp add: reflectorX_fields)
qed

text \<open>
  Claim C10. Each of the four callbacks the Informer gives to the Reflector first applies
  the operation to the Store and then emits the event of the matching name with the
  same argument: the Store a subscriber finds when the event reaches it is the Store
  after the operation, which is also the Store the callback leaves. So on \<^verbatim>\<open>ADD\<close> and
  \<^verbatim>\<open>UPDATE\<close> the subscriber finds the object under its key, on \<^verbatim>\<open>DELETE\<close> it finds the
  key gone, and on \<^verbatim>\<open>REPLACE\<close> it finds the mapping of the items.
\<close>

theorem store_mutated_before_emit:
  "kStore (informer_replace args st) = Store_replace args (kStore st)
   \<and> emitted (informer_replace args st)
       = emitted st @ [\<lparr>eventName = ''REPLACE'', eventArgs = Items args,
                         storeSeen = Store_replace args (kStore st)\<rparr>]
   \<and> kStore (informer_add object st) = Store_add object (kStore st)
   \<and> emitted (informer_add object st)
       = emitted st @ [\<lparr>eventName = ''ADD'', eventArgs = Object object,
                         storeSeen = Store_add object (kStore st)\<rparr>]
   \<and> kStore (informer_update object st) = Store_update object (kStore st)
   \<and> emitted (informer_update object st)
       = emitted st @ [\<lparr>eventName = ''UPDATE'', eventArgs = Object object,
                         storeSeen = Store_update object (kStore st)\<rparr>]
   \<and> kStore (informer_delete object st) = Store_delete object (kStore st)
   \<and> emitted (informer_delete object st)
       = emitted st @ [\<lparr>eventName = ''DELETE'', eventArgs = Object object,
                         storeSeen = Store_delete object (kStore st)\<rparr>]
   \<and> content (storeSeen (last (emitted (informer_replace args st))))
       = itemsMap (keyFunc (kStore st)) args
   \<and> content (storeSeen (last (emitted (informer_add object st))))
         (keyFunc (kStore st) object) = Some object
   \<and> content (storeSeen (last (emitted (informer_update object st))))
         (keyFunc (kStore st) object) = Some object
   \<and> content (storeSeen (last (emitted (informer_delete object st))))
         (keyFunc (kStore st) object) = None
   \<and> sink_replace informerSink = informer_replace \<and> sink_add informerSink = informer_add
   \<and> sink_update informerSink = informer_update \<and> sink_delete informerSink = informer_delete"
  by (simp add: informer_replace_def informer_add_def informer_update_def informer_delete_def
        emit_def store_eval informerSink_callbacks)

lemma refreshingSink_callbacks:
  "sink_replace refreshingSink = informer_replace" "sink_add refreshingSink = informer_add"
  "sink_update refreshingSink = informer_update" "sink_delete refreshingSink = informer_delete"
  "sink_setRefreshing refreshingSink = Some (\<lambda>st. st)"
  by (simp_all add: refreshingSink_def informerSink_def)

lemma relist_unavailable [simp]:
  "relistResourceVersion (r\<lparr>isLastSyncResourceVersionUnavailable := True\<rparr>) = ''''"
  by (simp add: relistResourceVersion_def)

text \<open>
  Claim C1 says that when the first list fails as expired (or with a too large resource
  version) and the retry with the resource version \<^verbatim>\<open>""\<close> succeeds, \<^verbatim>\<open>listAndWatch\<close>
  goes on as after a successful list. The source does not: after the inner \<^verbatim>\<open>try\<close> has
  assigned the list, control leaves the \<^verbatim>\<open>if\<close> and reaches the logging and the
  \<^verbatim>\<open>return\<close> that close the \<^verbatim>\<open>catch\<close> block. So \<^verbatim>\<open>listAndWatch\<close> returns with the
  store touched by \<^verbatim>\<open>setRefreshing\<close> only (no \<^verbatim>\<open>replace\<close>), the flag
  \<^verbatim>\<open>isLastSyncResourceVersionUnavailable\<close> still set, the cursor where it was, an error
  logged and no watch started.
\<close>

theorem recovery_list_discarded:
  assumes "sink_setRefreshing sink = Some setRefreshing"
    and "listCalls env = l # l' # ls"
    and "listAnswer l (listOptionsOf r) = Inl err"
    and "isExpiredError api err \<or> isTooLargeResourceVersionError api err"
    and "listAnswer l' ((listOptionsOf r)\<lparr>list_resourceVersion := ''''\<rparr>) = Inr list"
  shows "fst (listAndWatch api sink env r) = Returned
    \<and> store (fst (snd (listAndWatch api sink env r))) = setRefreshing (store r)
    \<and> isLastSyncResourceVersionUnavailable (fst (snd (listAndWatch api sink env r)))
    \<and> lastSyncResourceVersion (fst (snd (listAndWatch api sink env r)))
        = lastSyncResourceVersion r
    \<and> paginatedResult (fst (snd (listAndWatch api sink env r))) = paginatedResult r
    \<and> last (logged (fst (snd (listAndWatch api sink env r))))
        = (LogError, ''Failed to call paginated list %s: %s'')
    \<and> snd (snd (listAndWatch api sink env r)) = env\<lparr>listCalls := ls\<rparr>"
  using assms by (simp add: listAndWatch_def Let_def)

theorem recovery_list_discarded_witness:
  "fst (listAndWatch scenarioErrors refreshingSink expiredThenListed reflectorX) = Returned
   \<and> isLastSyncResourceVersionUnavailable
        (fst (snd (listAndWatch scenarioErrors refreshingSink expiredThenListed reflectorX)))
   \<and> hasSynced (kStore (store
        (fst (snd (listAndWatch scenarioErrors refreshingSink expiredThenListed reflectorX)))))
       = Pending
   \<and> emitted (store
        (fst (snd (listAndWatch scenarioErrors refreshingSink expiredThenListed reflectorX))))
       = []
   \<and> lastSyncResourceVersion
        (fst (snd (listAndWatch scenarioErrors refreshingSink expiredThenListed reflectorX)))
       = ''''
   \<and> listCalls (snd (snd
        (listAndWatch scenarioErrors refreshingSink expiredThenListed reflectorX))) = []"
proof -
  let ?l = "\<lparr>listAnswer = (\<lambda>options. Inl (Raised Expired) :: (failure, nat kobject) jsError + nat kobject listResult),
             stopDuringList = False\<rparr>"
  let ?l' = "\<lparr>listAnswer = (\<lambda>options. if list_resourceVersion options = ''''
                 then Inr recoveryList else Inl (Raised OtherFailure :: (failure, nat kobject) jsError)),
              stopDuringList = False\<rparr>"
  have 1: "sink_setRefreshing (refreshingSink :: (nat kobject, (string option, nat kobject) informerState) storeSink)
      = Some (\<lambda>st. st)"
    by (simp add: refreshingSink_callbacks)
  have 2: "listCalls expiredThenListed = ?l # ?l' # []"
    by (simp add: expiredThenListed_def)
  have 3: "listAnswer ?l (listOptionsOf reflectorX) = Inl (Raised Expired)" by simp
  have 4: "isExpiredError scenarioErrors (Raised Expired :: (failure, nat kobject) jsError)
      \<or> isTooLargeResourceVersionError scenarioErrors (Raised Expired :: (failure, nat kobject) jsError)"
    by (simp add: scenarioErrors_def)
  have 5: "listAnswer ?l' ((listOptionsOf reflectorX)\<lparr>list_resourceVersion := ''''\<rparr>)
      = Inr recoveryList" by simp
  from recovery_list_discarded [OF 1 2 3 4 5] show ?thesis
    by (simp add: reflectorX_fields newStore_def)
qed

lemma cancel_reflector:
  "kReflector (cancelHandle (informer_run sg informer)) = kReflector informer"
  by (simp add: cancelHandle_def abort_def informer_run_def)

lemma signal_reflector:
  "kReflector (signalAborts (informer_run sg informer)) = kReflector informer"
  by (simp add: signalAborts_def abort_def informer_run_def)

lemma newInformer_reflector:
  "stopRequested (kReflector (newInformer lw)) = False"
  "store (kReflector (newInformer lw)) = \<lparr>kStore = newStore uidKey, emitted = []\<rparr>"
  by (simp_all add: newInformer_def newReflector_def)

lemma listAndWatch_informerSink:
  "listAndWatch api informerSink env r = (Threw TypeError, r, env)"
  by (simp add: listAndWatch_def informerSink_callbacks)

lemma runOnce_informerSink:
  "\<not> stopRequested r \<Longrightarrow>
   runOnce api informerSink env r
     = (Again (logger LogInfo ''Restarting reflector %s''
                (logger LogError ''Failed to list and watch %s: %s'' r)), env)"
  by (simp add: runOnce_def listAndWatch_informerSink)

lemma stopRequested_sleep:
  "stopRequested (sleep P sl r) = (stopDuringSleep sl \<or> stopRequested r)"
  by (simp add: sleep_def split: prod.splits)

lemma run_awaiting:
  "fst (runLoop P api sink sleeps env (logger LogInfo ''Starting reflector %s'' r)) = Awaiting
   \<Longrightarrow> fst (run P api sink sleeps env r) = Awaiting"
  by (cases "runLoop P api sink sleeps env (logger LogInfo ''Starting reflector %s'' r)")
     (simp add: run_def)

lemma runLoop_informerSink:
  "\<not> stopRequested r \<Longrightarrow> \<forall>sl \<in> set sleeps. \<not> stopDuringSleep sl \<Longrightarrow>
   fst (runLoop P api informerSink sleeps env r) = Awaiting"
proof (induction sleeps arbitrary: r)
  case Nil
  then show ?case by (subst runLoop.simps) (simp add: runOnce_informerSink)
next
  case (Cons sl sleeps)
  let ?r1 = "logger LogInfo ''Restarting reflector %s''
               (logger LogError ''Failed to list and watch %s: %s'' r)"
  have "\<not> stopRequested (sleep P sl ?r1)"
    using Cons.prems by (simp add: stopRequested_sleep)
  then have "fst (runLoop P api informerSink sleeps env (sleep P sl ?r1)) = Awaiting"
    using Cons.prems by (intro Cons.IH) simp_all
  then show ?case
    using Cons.prems(1) by (subst runLoop.simps) (simp add: runOnce_informerSink)
qed

text \<open>
  Claim C2 says that the handle returned by \<^verbatim>\<open>Informer.run(signal)\<close>, and the caller's
  signal, stop the Reflector. In the source the signal of the AbortController is passed
  to \<^verbatim>\<open>Reflector.run\<close>, which has no parameter, and nothing calls \<^verbatim>\<open>Reflector.stop\<close>:
  invoking the handle or aborting the signal leaves the Reflector exactly as it was,
  \<^verbatim>\<open>stopRequested\<close> stays false, and as long as nobody else calls \<^verbatim>\<open>stop()\<close> the loop of
  \<^verbatim>\<open>run\<close> never returns.
\<close>

theorem cancel_not_propagated:
  "kReflector (cancelHandle (informer_run sg informer)) = kReflector informer
   \<and> kReflector (signalAborts (informer_run sg informer)) = kReflector informer
   \<and> \<not> stopRequested (kReflector (cancelHandle (informer_run sg (newInformer lw))))
   \<and> \<not> stopRequested (kReflector (signalAborts (informer_run sg (newInformer lw))))
   \<and> ((\<forall>sl \<in> set sleeps. \<not> stopDuringSleep sl) \<longrightarrow>
        fst (run P api informerSink sleeps env
               (kReflector (cancelHandle (informer_run sg (newInformer lw))))) = Awaiting)"
proof -
  have "fst (runLoop P api informerSink sleeps env
          (logger LogInfo ''Starting reflector %s'' (kReflector (newInformer lw)))) = Awaiting"
    if "\<forall>sl \<in> set sleeps. \<not> stopDuringSleep sl"
    using that by (intro runLoop_informerSink) (simp_all add: newInformer_reflector)
  then have "(\<forall>sl \<in> set sleeps. \<not> stopDuringSleep sl) \<longrightarrow>
      fst (run P api informerSink sleeps env (kReflector (newInformer lw))) = Awaiting"
    by (auto intro: run_awaiting)
  then show ?thesis
    by (simp add: cancel_reflector signal_reflector newInformer_reflector)
qed

theorem cancel_not_propagated_witness:
  "\<not> stopDuringSleep steadySleep
   \<and> fst (run referencePlatform scenarioErrors informerSink [steadySleep, steadySleep] listsA
          (kReflector (cancelHandle (informer_run True (newInformer watcherX))))) = Awaiting
   \<and> content (kStore (store (fst (snd (run referencePlatform scenarioErrors refreshingSink [] listsA
          (kReflector (cancelHandle (informer_run True (newInformer watcherX))))))))) (Some ''a'')
       = Some objA
   \<and> map eventName (emitted (store (fst (snd (run referencePlatform scenarioErrors refreshingSink [] listsA
          (kReflector (cancelHandle (informer_run True (newInformer watcherX)))))))))
       = [''REPLACE'']"
proof -
  have s: "\<not> stopDuringSleep steadySleep" by (simp add: steadySleep_def)
  then have b: "\<forall>sl \<in> set [steadySleep, steadySleep]. \<not> stopDuringSleep sl" by simp
  let ?r = "kReflector (cancelHandle (informer_run True (newInformer watcherX)))
              :: (string option, nat kobject) informerState reflector"
  have r: "?r = reflectorX"
    by (simp add: cancelHandle_def abort_def informer_run_def newInformer_def reflectorX_def)
  have l: "listAndWatch scenarioErrors refreshingSink listsA
             (logger LogInfo ''Starting reflector %s'' reflectorX)
     = (Awaiting,
        logger LogDebug ''Watch %s with resourceVersion %s''
          ((logger LogDebug ''List of %s successfully returned %d items (%s)''
             (logger LogDebug ''List %s with resourceVersion %s''
               (logger LogInfo ''Starting reflector %s'' reflectorX)))
           \<lparr>isLastSyncResourceVersionUnavailable := False,
             store := informer_replace [objA] \<lparr>kStore = newStore uidKey, emitted = []\<rparr>,
             lastSyncResourceVersion := ''100''\<rparr>),
        \<lparr>listCalls = [], watchCalls = []\<rparr>)"
    by (simp add: listAndWatch_def listed_def Let_def refreshingSink_callbacks listsA_def
          reflectorX_fields)
  have run: "fst (snd (run referencePlatform scenarioErrors refreshingSink [] listsA reflectorX))
     = logger LogDebug ''Watch %s with resourceVersion %s''
          ((logger LogDebug ''List of %s successfully returned %d items (%s)''
             (logger LogDebug ''List %s with resourceVersion %s''
               (logger LogInfo ''Starting reflector %s'' reflectorX)))
           \<lparr>isLastSyncResourceVersionUnavailable := False,
             store := informer_replace [objA] \<lparr>kStore = newStore uidKey, emitted = []\<rparr>,
             lastSyncResourceVersion := ''100''\<rparr>)"
    by (simp add: run_def runLoop.simps runOnce_def l reflectorX_fields)
  have c: "content (kStore (informer_replace [objA] \<lparr>kStore = newStore uidKey, emitted = []\<rparr>))
             (Some ''a'') = Some objA"
    "map eventName (emitted (informer_replace [objA] \<lparr>kStore = newStore uidKey, emitted = []\<rparr>))
       = [''REPLACE'']"
    by (simp_all add: informer_replace_def emit_def store_eval itemsMap_def objA_def
          uidKey_mkObject)
  from cancel_not_propagated [where sg = True and lw = watcherX
      and informer = "newInformer watcherX :: (string option, nat kobject) informer"
      and sleeps = "[steadySleep, steadySleep]" and api = scenarioErrors and env = listsA
      and P = referencePlatform] b
  have w: "fst (run referencePlatform scenarioErrors informerSink [steadySleep, steadySleep] listsA ?r) = Awaiting"
    by blast
  show ?thesis
    using w s by (simp add: r run c)
qed

end
